theory Spec2Isabelle
  imports Complex_Main
begin

section \<open>PayStream dashboard: data model\<close>

text \<open>
  The definitions below follow \<^verbatim>\<open>components/PayStreamDashboard.tsx\<close>.
  A JavaScript \<^verbatim>\<open>number\<close> is modelled as an exact rational (\<^typ>\<open>rat\<close>): products and
  quotients are the mathematical ones, without the rounding of IEEE doubles, and the
  value \<^verbatim>\<open>NaN\<close> is written \<open>None\<close> where the code can meet it. A \<^verbatim>\<open>bigint\<close> is an
  \<^typ>\<open>int\<close>. Record fields carry a prefix naming their interface (\<open>c_\<close> for
  \<^verbatim>\<open>Contractor\<close>, \<open>s_\<close> for \<^verbatim>\<open>Schedule\<close>, \<open>q_\<close> for \<^verbatim>\<open>Quote\<close>, \<open>a_\<close> for
  \<^verbatim>\<open>Activity\<close>, \<open>p_\<close> for \<^verbatim>\<open>Persisted\<close>), since several interfaces share field names.
\<close>

definition SCALE :: rat where
  "SCALE = 1000000"

definition QUOTE_WINDOW_MS :: rat where
  "QUOTE_WINDOW_MS = 30000"

datatype Currency = USDC | MXN | ARS | TRY | NGN

datatype Mode = usd_hold | auto_swap

datatype Cadence = one_time | weekly | monthly

datatype CashOut = hold | instant | standard

datatype Status = active | completed

datatype Kind = deposit | payment | cashout | schedule

record Contractor =
  c_id :: string
  c_name :: string
  c_email :: string
  c_address :: string
  c_preferred :: Currency
  c_bankHint :: string
  c_generated :: bool
  c_assetOptedIn :: "bool option"
  c_usdc :: rat
  c_local :: rat

record Schedule =
  s_id :: string
  s_contractorId :: string
  s_amountUsdc :: rat
  s_cadence :: Cadence
  s_mode :: Mode
  s_nextDate :: string
  s_status :: Status

record Quote =
  q_amountUsdc :: rat
  q_currency :: Currency
  q_output :: rat
  q_rate :: rat
  q_expiresAt :: rat

record Activity =
  a_id :: string
  a_kind :: Kind
  a_at :: string
  a_contractorId :: "string option"
  a_txId :: "string option"
  a_round :: "rat option"
  a_usdc :: "rat option"
  a_currency :: "Currency option"
  a_output :: "rat option"
  a_note :: string

section \<open>Quote engine\<close>

fun RATES :: "Currency \<Rightarrow> rat" where
  "RATES USDC = 1"
| "RATES MXN = 17"
| "RATES ARS = 1050"
| "RATES TRY = 33.5"
| "RATES NGN = 1510"

text \<open>
  \<^verbatim>\<open>quoteFor(amountUsdc, currency)\<close>; the third argument is the value of
  \<^verbatim>\<open>Date.now()\<close> at the call.
\<close>

definition quoteFor :: "rat \<Rightarrow> Currency \<Rightarrow> rat \<Rightarrow> Quote" where
  "quoteFor amountUsdc currency now =
     (let spread = 0.995;
          baseUsdc = amountUsdc / SCALE;
          output = (if currency = USDC then baseUsdc else baseUsdc * RATES currency * spread)
      in \<lparr> q_amountUsdc = amountUsdc,
           q_currency = currency,
           q_output = output,
           q_rate = RATES currency,
           q_expiresAt = now + QUOTE_WINDOW_MS \<rparr>)"

section \<open>Strings and errors\<close>

text \<open>
  A thrown value is an \<^verbatim>\<open>Error\<close> with its message, or the \<^verbatim>\<open>RangeError\<close> the engine raises
  (\<^verbatim>\<open>BigInt\<close> of a number that is no integer, \<^verbatim>\<open>toISOString\<close> of an invalid date).
  \<^verbatim>\<open>err(e)\<close> reads the message; the engine's wording for a \<^verbatim>\<open>RangeError\<close> varies and is
  rendered by its name.
\<close>

datatype error = Error string | RangeError

fun err :: "error \<Rightarrow> string" where
  "err (Error message) = message"
| "err RangeError = ''RangeError''"

text \<open>
  \<^verbatim>\<open>toLowerCase\<close>, \<^verbatim>\<open>includes\<close> and \<^verbatim>\<open>trim\<close> on strings of ASCII characters: the letters
  \<^verbatim>\<open>A\<close> to \<^verbatim>\<open>Z\<close> are lowered, the space and the control characters 9 to 13 are white
  space.
\<close>

definition toLowerChar :: "char \<Rightarrow> char" where
  "toLowerChar c =
     (let k = (of_char c :: nat) in if 65 \<le> k \<and> k \<le> 90 then char_of (k + 32) else c)"

definition toLowerCase :: "string \<Rightarrow> string" where
  "toLowerCase s = map toLowerChar s"

fun startsWith :: "string \<Rightarrow> string \<Rightarrow> bool" where
  "startsWith s [] = True"
| "startsWith [] (p # ps) = False"
| "startsWith (c # cs) (p # ps) = (c = p \<and> startsWith cs ps)"

fun str_includes :: "string \<Rightarrow> string \<Rightarrow> bool" where
  "str_includes [] sub = (sub = [])"
| "str_includes (c # cs) sub = (startsWith (c # cs) sub \<or> str_includes cs sub)"

text \<open>The comparison \<^verbatim>\<open>a <= b\<close> of two strings: lexicographic, by character code.\<close>

fun str_le :: "string \<Rightarrow> string \<Rightarrow> bool" where
  "str_le [] b = True"
| "str_le (x # xs) [] = False"
| "str_le (x # xs) (y # ys) =
     ((of_char x :: nat) < of_char y \<or> (x = y \<and> str_le xs ys))"

definition isSpace :: "char \<Rightarrow> bool" where
  "isSpace c = (let k = (of_char c :: nat) in k = 32 \<or> (9 \<le> k \<and> k \<le> 13))"

definition trim :: "string \<Rightarrow> string" where
  "trim s = rev (dropWhile isSpace (rev (dropWhile isSpace s)))"

text \<open>
  \<^verbatim>\<open>String(n)\<close> for a natural number \<open>n\<close>: its decimal digits (the language changes to
  the exponent notation from \<open>10^21\<close> on, which no amount, count or asset id reaches).
\<close>

function decimal :: "nat \<Rightarrow> string" where
  "decimal n =
     (if n < 10 then [char_of (48 + n)] else decimal (n div 10) @ [char_of (48 + n mod 10)])"
  by pat_completeness auto
termination
  by (relation "measure (\<lambda>n. n)") auto

declare decimal.simps [simp del]

text \<open>\<^verbatim>\<open>String(x)\<close> for a number that is a natural number, or \<^verbatim>\<open>NaN\<close>.\<close>

definition numberToString :: "rat option \<Rightarrow> string" where
  "numberToString x = (case x of None \<Rightarrow> ''NaN'' | Some r \<Rightarrow> decimal (nat \<lfloor>r\<rfloor>))"

definition isPendingWalletRequestError :: "string \<Rightarrow> bool" where
  "isPendingWalletRequestError message =
     (let normalized = toLowerCase message
      in str_includes normalized ''transaction request pending''
         \<or> str_includes normalized ''another transaction request in progress''
         \<or> str_includes normalized ''already has a pending request''
         \<or> str_includes normalized ''confirmation failed(4100)''
         \<or> str_includes normalized ''code 4100''
         \<or> str_includes normalized ''request pending'')"

section \<open>Dates\<close>

text \<open>
  The built-in \<^verbatim>\<open>Date\<close>, after the definitions of the language standard: a time value
  is a number of milliseconds since 1970-01-01T00:00:00Z, \<open>None\<close> standing for the
  invalid date; months count from 0, days of the month from 1.
\<close>

definition msPerDay :: int where
  "msPerDay = 86400000"

definition Day :: "int \<Rightarrow> int" where
  "Day t = t div msPerDay"

definition TimeWithinDay :: "int \<Rightarrow> int" where
  "TimeWithinDay t = t mod msPerDay"

definition DaysInYear :: "int \<Rightarrow> int" where
  "DaysInYear y =
     (if y mod 4 \<noteq> 0 then 365
      else if y mod 100 \<noteq> 0 then 366
      else if y mod 400 \<noteq> 0 then 365
      else 366)"

definition DayFromYear :: "int \<Rightarrow> int" where
  "DayFromYear y =
     365 * (y - 1970) + (y - 1969) div 4 - (y - 1901) div 100 + (y - 1601) div 400"

definition YearFromDay :: "int \<Rightarrow> int" where
  "YearFromDay d =
     (let y0 = 1970 + (d * 400) div 146097
      in if DayFromYear (y0 + 1) \<le> d then y0 + 1
         else if d < DayFromYear y0 then y0 - 1
         else y0)"

definition YearFromTime :: "int \<Rightarrow> int" where
  "YearFromTime t = YearFromDay (Day t)"

definition LeapDays :: "int \<Rightarrow> int" where
  "LeapDays y = (if DaysInYear y = 366 then 1 else 0)"

definition DayWithinYear :: "int \<Rightarrow> int" where
  "DayWithinYear t = Day t - DayFromYear (YearFromTime t)"

definition FirstDayOfMonth :: "int \<Rightarrow> int \<Rightarrow> int" where
  "FirstDayOfMonth leap m =
     (if m = 0 then 0
      else if m = 1 then 31
      else if m = 2 then 59 + leap
      else if m = 3 then 90 + leap
      else if m = 4 then 120 + leap
      else if m = 5 then 151 + leap
      else if m = 6 then 181 + leap
      else if m = 7 then 212 + leap
      else if m = 8 then 243 + leap
      else if m = 9 then 273 + leap
      else if m = 10 then 304 + leap
      else 334 + leap)"

definition MonthFromDayWithinYear :: "int \<Rightarrow> int \<Rightarrow> int" where
  "MonthFromDayWithinYear leap dwy =
     (if dwy < 31 then 0
      else if dwy < 59 + leap then 1
      else if dwy < 90 + leap then 2
      else if dwy < 120 + leap then 3
      else if dwy < 151 + leap then 4
      else if dwy < 181 + leap then 5
      else if dwy < 212 + leap then 6
      else if dwy < 243 + leap then 7
      else if dwy < 273 + leap then 8
      else if dwy < 304 + leap then 9
      else if dwy < 334 + leap then 10
      else 11)"

definition MonthFromTime :: "int \<Rightarrow> int" where
  "MonthFromTime t = MonthFromDayWithinYear (LeapDays (YearFromTime t)) (DayWithinYear t)"

definition DateFromTime :: "int \<Rightarrow> int" where
  "DateFromTime t =
     DayWithinYear t - FirstDayOfMonth (LeapDays (YearFromTime t)) (MonthFromTime t) + 1"

definition MakeDay :: "int \<Rightarrow> int \<Rightarrow> int \<Rightarrow> int" where
  "MakeDay year month date =
     (let ym = year + month div 12;
          mn = month mod 12
      in DayFromYear ym + FirstDayOfMonth (LeapDays ym) mn + date - 1)"

definition MakeDate :: "int \<Rightarrow> int \<Rightarrow> int" where
  "MakeDate day time = day * msPerDay + time"

definition TimeClip :: "int \<Rightarrow> int option" where
  "TimeClip t = (if \<bar>t\<bar> > 8640000000000000 then None else Some t)"

definition digitChar :: "int \<Rightarrow> char" where
  "digitChar k = char_of (48 + k)"

definition pad2 :: "int \<Rightarrow> string" where
  "pad2 n = [digitChar (n div 10 mod 10), digitChar (n mod 10)]"

definition pad3 :: "int \<Rightarrow> string" where
  "pad3 n = [digitChar (n div 100 mod 10), digitChar (n div 10 mod 10), digitChar (n mod 10)]"

definition pad4 :: "int \<Rightarrow> string" where
  "pad4 n = [digitChar (n div 1000 mod 10), digitChar (n div 100 mod 10),
             digitChar (n div 10 mod 10), digitChar (n mod 10)]"

definition pad6 :: "int \<Rightarrow> string" where
  "pad6 n = [digitChar (n div 100000 mod 10), digitChar (n div 10000 mod 10),
             digitChar (n div 1000 mod 10), digitChar (n div 100 mod 10),
             digitChar (n div 10 mod 10), digitChar (n mod 10)]"

definition isoYear :: "int \<Rightarrow> string" where
  "isoYear y =
     (if 0 \<le> y \<and> y \<le> 9999 then pad4 y
      else if y < 0 then CHR ''-'' # pad6 (- y)
      else CHR ''+'' # pad6 y)"

text \<open>\<^verbatim>\<open>Date.prototype.toISOString\<close>: a \<^verbatim>\<open>RangeError\<close> for an invalid date.\<close>

definition toISOString :: "int option \<Rightarrow> error + string" where
  "toISOString tv =
     (case tv of
        None \<Rightarrow> Inl RangeError
      | Some t \<Rightarrow>
          Inr (isoYear (YearFromTime t) @ ''-'' @ pad2 (MonthFromTime t + 1) @ ''-''
               @ pad2 (DateFromTime t) @ ''T''
               @ pad2 (TimeWithinDay t div 3600000) @ '':''
               @ pad2 (TimeWithinDay t div 60000 mod 60) @ '':''
               @ pad2 (TimeWithinDay t div 1000 mod 60) @ ''.''
               @ pad3 (TimeWithinDay t mod 1000) @ ''Z''))"

definition digitVal :: "char \<Rightarrow> int option" where
  "digitVal c =
     (let k = (of_char c :: int) in if 48 \<le> k \<and> k \<le> 57 then Some (k - 48) else None)"

fun digitsVal :: "int \<Rightarrow> string \<Rightarrow> int option" where
  "digitsVal acc [] = Some acc"
| "digitsVal acc (c # cs) =
     (case digitVal c of None \<Rightarrow> None | Some k \<Rightarrow> digitsVal (acc * 10 + k) cs)"

definition DaysInMonth :: "int \<Rightarrow> int \<Rightarrow> int" where
  "DaysInMonth y m =
     (if m = 2 then 28 + LeapDays y
      else if m = 4 \<or> m = 6 \<or> m = 9 \<or> m = 11 then 30
      else 31)"

text \<open>
  The calendar date \<open>(year, month, day)\<close> written by a string of the form
  \<^verbatim>\<open>YYYY-MM-DD\<close>, with the month in 1..12 and the day within the month.
\<close>

definition parseCalendarDate :: "string \<Rightarrow> (int \<times> int \<times> int) option" where
  "parseCalendarDate s =
     (if length s = 10 \<and> s ! 4 = CHR ''-'' \<and> s ! 7 = CHR ''-'' then
        (case (digitsVal 0 (take 4 s), digitsVal 0 (take 2 (drop 5 s)),
               digitsVal 0 (drop 8 s)) of
           (Some y, Some m, Some d) \<Rightarrow>
             if 1 \<le> m \<and> m \<le> 12 \<and> 1 \<le> d \<and> d \<le> DaysInMonth y m then Some (y, m, d)
             else None
         | _ \<Rightarrow> None)
      else None)"

text \<open>
  \<^verbatim>\<open>new Date(`${date}T00:00:00.000Z`)\<close>. For a \<^verbatim>\<open>date\<close> of the form \<^verbatim>\<open>YYYY-MM-DD\<close>
  that names a day of the calendar, the time value is midnight UTC of that day. For any
  other string the language leaves the result to the engine (another recognised format,
  a fallback parser, or an invalid date): \<open>other\<close> stands for what the engine does then,
  \<open>None\<close> being the invalid date.
\<close>

definition newDateUTC :: "(string \<Rightarrow> int option) \<Rightarrow> string \<Rightarrow> int option" where
  "newDateUTC other date =
     (case parseCalendarDate date of
        Some (y, m, d) \<Rightarrow> TimeClip (MakeDate (MakeDay y (m - 1) d) 0)
      | None \<Rightarrow> (case other (date @ ''T00:00:00.000Z'') of
                   None \<Rightarrow> None
                 | Some t \<Rightarrow> TimeClip t))"

definition getUTCDate :: "int option \<Rightarrow> int option" where
  "getUTCDate tv = map_option DateFromTime tv"

definition getUTCMonth :: "int option \<Rightarrow> int option" where
  "getUTCMonth tv = map_option MonthFromTime tv"

definition setUTCDate :: "int option \<Rightarrow> int option \<Rightarrow> int option" where
  "setUTCDate tv dt =
     (case (tv, dt) of
        (Some t, Some d) \<Rightarrow>
          TimeClip (MakeDate (MakeDay (YearFromTime t) (MonthFromTime t) d) (TimeWithinDay t))
      | _ \<Rightarrow> None)"

definition setUTCMonth :: "int option \<Rightarrow> int option \<Rightarrow> int option" where
  "setUTCMonth tv month =
     (case (tv, month) of
        (Some t, Some m) \<Rightarrow>
          TimeClip (MakeDate (MakeDay (YearFromTime t) m (DateFromTime t)) (TimeWithinDay t))
      | _ \<Rightarrow> None)"

definition nextDate :: "(string \<Rightarrow> int option) \<Rightarrow> string \<Rightarrow> Cadence \<Rightarrow> error + string option" where
  "nextDate other date cadence =
     (if cadence = one_time then Inr None
      else
        let d0 = newDateUTC other date;
            d1 = (if cadence = weekly
                  then setUTCDate d0 (map_option (\<lambda>k. k + 7) (getUTCDate d0)) else d0);
            d2 = (if cadence = monthly
                  then setUTCMonth d1 (map_option (\<lambda>k. k + 1) (getUTCMonth d1)) else d1)
        in (case toISOString d2 of
              Inl e \<Rightarrow> Inl e
            | Inr s \<Rightarrow> Inr (Some (take 10 s))))"

text \<open>The calendar, as the specification speaks of it.\<close>

definition validDate :: "int \<times> int \<times> int \<Rightarrow> bool" where
  "validDate x = (case x of (y, m, d) \<Rightarrow> 1 \<le> m \<and> m \<le> 12 \<and> 1 \<le> d \<and> d \<le> DaysInMonth y m)"

definition tomorrow :: "int \<times> int \<times> int \<Rightarrow> int \<times> int \<times> int" where
  "tomorrow x =
     (case x of (y, m, d) \<Rightarrow>
        if d < DaysInMonth y m then (y, m, d + 1)
        else if m < 12 then (y, m + 1, 1)
        else (y + 1, 1, 1))"

definition followingMonth :: "int \<times> int \<Rightarrow> int \<times> int" where
  "followingMonth x = (case x of (y, m) \<Rightarrow> if m < 12 then (y, m + 1) else (y + 1, 1))"

definition isoDate :: "int \<times> int \<times> int \<Rightarrow> string" where
  "isoDate x = (case x of (y, m, d) \<Rightarrow> pad4 y @ ''-'' @ pad2 m @ ''-'' @ pad2 d)"
text \<open>The number of days from 1970-01-01 to a calendar date (negative before it).\<close>

definition dayNumber :: "int \<times> int \<times> int \<Rightarrow> int" where
  "dayNumber x = (case x of (y, m, d) \<Rightarrow> MakeDay y (m - 1) d)"

section \<open>Persisted snapshot\<close>

text \<open>
  A value produced by \<^verbatim>\<open>JSON.parse\<close>. An object is the list of its keys with their
  values; the value of a key is the one \<^const>\<open>map_of\<close> finds.
\<close>

datatype json =
    JNull
  | JBool bool
  | JNumber rat
  | JString string
  | JArray "json list"
  | JObject "(string \<times> json) list"

text \<open>
  The lists of a \<^verbatim>\<open>Persisted\<close> value are kept as the loader returns them, unchecked
  JSON arrays: the cast to \<^verbatim>\<open>Partial<Persisted>\<close> inspects nothing.
\<close>

record Persisted =
  p_appId :: "rat option"
  p_assetId :: string
  p_contractors :: "json list"
  p_schedules :: "json list"
  p_activity :: "json list"
  p_selected :: string

definition emptyPersisted :: "string \<Rightarrow> Persisted" where
  "emptyPersisted assetId =
     \<lparr> p_appId = None, p_assetId = assetId, p_contractors = [], p_schedules = [],
       p_activity = [], p_selected = [] \<rparr>"

text \<open>
  Reading a property of a parsed value other than \<^verbatim>\<open>null\<close>; \<open>None\<close> is \<^verbatim>\<open>undefined\<close>.
  None of the six keys is a property of a boolean, a number, a string or an array.
\<close>

definition getProp :: "json \<Rightarrow> string \<Rightarrow> json option" where
  "getProp parsed key = (case parsed of JObject kvs \<Rightarrow> map_of kvs key | _ \<Rightarrow> None)"

definition numberOr :: "json option \<Rightarrow> rat option" where
  "numberOr v = (case v of Some (JNumber n) \<Rightarrow> Some n | _ \<Rightarrow> None)"

definition stringOr :: "json option \<Rightarrow> string \<Rightarrow> string" where
  "stringOr v dflt = (case v of Some (JString s) \<Rightarrow> s | _ \<Rightarrow> dflt)"

definition arrayOr :: "json option \<Rightarrow> json list" where
  "arrayOr v = (case v of Some (JArray xs) \<Rightarrow> xs | _ \<Rightarrow> [])"

text \<open>
  \<^verbatim>\<open>loadPersisted(storageKey, assetId)\<close>. \<open>window\<close> is the local storage when there is a
  \<^verbatim>\<open>window\<close> (\<open>None\<close> otherwise), and \<open>JSON_parse\<close> is the engine's parser, \<open>None\<close> being
  its \<^verbatim>\<open>SyntaxError\<close>. Reading \<^verbatim>\<open>parsed.appId\<close> of \<^verbatim>\<open>null\<close> raises a \<^verbatim>\<open>TypeError\<close>; both
  exceptions are caught by the \<^verbatim>\<open>catch\<close> clause.
\<close>

definition loadPersisted ::
  "(string \<Rightarrow> string option) option \<Rightarrow> (string \<Rightarrow> json option) \<Rightarrow> string \<Rightarrow> string
   \<Rightarrow> Persisted" where
  "loadPersisted window JSON_parse storageKey assetId =
     (case window of
        None \<Rightarrow> emptyPersisted assetId
      | Some getItem \<Rightarrow>
          (case getItem storageKey of
             None \<Rightarrow> emptyPersisted assetId
           | Some raw \<Rightarrow>
               if raw = [] then emptyPersisted assetId
               else
                 (case JSON_parse raw of
                    None \<Rightarrow> emptyPersisted assetId
                  | Some parsed \<Rightarrow>
                      if parsed = JNull then emptyPersisted assetId
                      else
                        \<lparr> p_appId = numberOr (getProp parsed ''appId''),
                          p_assetId = stringOr (getProp parsed ''assetId'') assetId,
                          p_contractors = arrayOr (getProp parsed ''contractors''),
                          p_schedules = arrayOr (getProp parsed ''schedules''),
                          p_activity = arrayOr (getProp parsed ''activity''),
                          p_selected = stringOr (getProp parsed ''selected'') [] \<rparr>)))"

section \<open>Vault balance and opt-in queries\<close>

text \<open>A value of type \<^verbatim>\<open>number | bigint\<close>.\<close>

datatype numeric = JsNumber rat | JsBigInt int

record AssetHolding =
  h_assetId :: "numeric option"
  h_asset_id :: "numeric option"
  h_amount :: "numeric option"

record AccountInfo =
  i_assets :: "AssetHolding list option"

definition MAX_SAFE_INTEGER :: int where
  "MAX_SAFE_INTEGER = 9007199254740991"

definition isInteger :: "rat \<Rightarrow> bool" where
  "isInteger r = (of_int \<lfloor>r\<rfloor> = r)"

text \<open>\<^verbatim>\<open>BigInt(v)\<close>: a \<^verbatim>\<open>RangeError\<close> for a number that is not an integer (\<open>None\<close> is \<^verbatim>\<open>NaN\<close>).\<close>

definition BigInt_of_number :: "rat option \<Rightarrow> error + int" where
  "BigInt_of_number v =
     (case v of
        None \<Rightarrow> Inl RangeError
      | Some r \<Rightarrow> if isInteger r then Inr \<lfloor>r\<rfloor> else Inl RangeError)"

definition BigInt_of :: "numeric \<Rightarrow> error + int" where
  "BigInt_of v = (case v of JsBigInt n \<Rightarrow> Inr n | JsNumber r \<Rightarrow> BigInt_of_number (Some r))"

text \<open>\<^verbatim>\<open>asset.assetId ?? asset['asset-id']\<close>.\<close>

definition assetIdValue :: "AssetHolding \<Rightarrow> numeric option" where
  "assetIdValue asset = (case h_assetId asset of Some v \<Rightarrow> Some v | None \<Rightarrow> h_asset_id asset)"

text \<open>
  \<^verbatim>\<open>info.assets?.find(...)\<close> with the callback of \<^verbatim>\<open>getVaultUsdcBalance\<close>: the first
  holding whose identifier equals the target; the conversion of an identifier may raise.
\<close>

fun findHolding :: "int \<Rightarrow> AssetHolding list \<Rightarrow> error + AssetHolding option" where
  "findHolding targetAssetId [] = Inr None"
| "findHolding targetAssetId (asset # assets) =
     (case assetIdValue asset of
        None \<Rightarrow> findHolding targetAssetId assets
      | Some v \<Rightarrow>
          (case BigInt_of v of
             Inl e \<Rightarrow> Inl e
           | Inr k \<Rightarrow> if k = targetAssetId then Inr (Some asset)
                      else findHolding targetAssetId assets))"

text \<open>The test \<^verbatim>\<open>!amount\<close> on an optional amount: absent, or zero.\<close>

definition noAmount :: "numeric option \<Rightarrow> bool" where
  "noAmount amount =
     (case amount of
        None \<Rightarrow> True
      | Some (JsNumber r) \<Rightarrow> r = 0
      | Some (JsBigInt n) \<Rightarrow> n = 0)"

text \<open>
  \<^verbatim>\<open>getVaultUsdcBalance(targetAppId)\<close>, given \<^verbatim>\<open>parsedAsset\<close> and the answer of the node to
  \<^verbatim>\<open>accountInformation(appAddress)\<close> (an error when the query fails).
\<close>

definition getVaultUsdcBalance :: "rat option \<Rightarrow> error + AccountInfo \<Rightarrow> error + rat" where
  "getVaultUsdcBalance parsedAsset response =
     (case response of
        Inl e \<Rightarrow> Inl e
      | Inr info \<Rightarrow>
          (case BigInt_of_number parsedAsset of
             Inl e \<Rightarrow> Inl e
           | Inr targetAssetId \<Rightarrow>
               (case (case i_assets info of
                        None \<Rightarrow> Inr None
                      | Some assets \<Rightarrow> findHolding targetAssetId assets) of
                  Inl e \<Rightarrow> Inl e
                | Inr holding \<Rightarrow>
                    (case (case holding of None \<Rightarrow> None | Some h \<Rightarrow> h_amount h) of
                       None \<Rightarrow> Inr 0
                     | Some a \<Rightarrow>
                         if noAmount (Some a) then Inr 0
                         else
                           (case BigInt_of a of
                              Inl e \<Rightarrow> Inl e
                            | Inr amount \<Rightarrow>
                                Inr (if amount > MAX_SAFE_INTEGER then of_int MAX_SAFE_INTEGER
                                     else of_int amount))))))"

definition validAsset :: "rat option \<Rightarrow> bool" where
  "validAsset parsedAsset =
     (case parsedAsset of None \<Rightarrow> False | Some r \<Rightarrow> isInteger r \<and> 0 < r)"

text \<open>
  \<^verbatim>\<open>isAddressOptedInToAsset(address)\<close>, given the outcome of
  \<^verbatim>\<open>accountAssetInformation(address, parsedAsset)\<close>: \<open>None\<close> when the node answers,
  the error it raises otherwise.
\<close>

definition isAddressOptedInToAsset :: "rat option \<Rightarrow> error option \<Rightarrow> error + bool" where
  "isAddressOptedInToAsset parsedAsset response =
     (if \<not> validAsset parsedAsset then Inr False
      else
        (case response of
           None \<Rightarrow> Inr True
         | Some e \<Rightarrow>
             let message = toLowerCase (err e)
             in if str_includes message ''asset not found in account''
                   \<or> str_includes message ''has not opted in to asset''
                   \<or> str_includes message ''must optin''
                   \<or> str_includes message ''does not hold asset''
                   \<or> str_includes message ''404''
                then Inr False
                else Inl e))"

section \<open>Dashboard state\<close>

record OnChainTx =
  o_txId :: string
  o_round :: "rat option"
  o_sender :: "string option"
  o_time :: "rat option"

text \<open>One call of \<^verbatim>\<open>client.send.payout\<close>, with the arguments it was given.\<close>

record PayoutCall =
  k_recipient :: string
  k_asset :: int
  k_amount :: int
  k_sender :: string

text \<open>
  The state of the component that its handlers write: the React state variables, the
  \<^verbatim>\<open>walletRequestInFlight\<close> reference, and the two effects on the outside that the
  properties speak of, namely the notifications shown (\<^verbatim>\<open>enqueueSnackbar\<close>, message and
  variant, in the order of the calls) and the payout calls handed to the contract client
  (in the order of the calls). \<open>renderFailed\<close> records that a state updater raised an
  exception: such an exception surfaces when React renders the update, and what becomes
  of the component afterwards is not modelled.
\<close>

record State =
  contractors :: "Contractor list"
  schedules :: "Schedule list"
  activity :: "Activity list"
  loading :: string
  walletRequestInFlight :: bool
  walletRequestBusy :: bool
  walletPendingError :: bool
  walletPendingDetail :: string
  vaultBalance :: rat
  totalDeposited :: rat
  onChain :: "OnChainTx list"
  snackbar :: "(string \<times> string) list"
  payoutCalls :: "PayoutCall list"
  renderFailed :: bool

text \<open>
  What a handler reads from the render it was created in: the values its closure
  captured, the formatter of the locale behind \<^verbatim>\<open>fmtUsdc\<close>, and \<open>v_dateParse\<close>, the
  engine's reading of date strings that are not plain calendar dates (see
  \<^const>\<open>newDateUTC\<close>). \<open>v_cashAmount\<close> is \<^verbatim>\<open>Number(cashAmount)\<close>, \<open>None\<close> being \<^verbatim>\<open>NaN\<close>;
  \<open>v_today\<close> is the value of \<^verbatim>\<open>today()\<close>. The application id is taken to be an integer.
\<close>

record View =
  v_appId :: "int option"
  v_activeAddress :: "string option"
  v_transactionSigner :: bool
  v_parsedAsset :: "rat option"
  v_contractors :: "Contractor list"
  v_schedules :: "Schedule list"
  v_today :: string
  v_selected :: string
  v_cashMode :: CashOut
  v_cashAmount :: "rat option"
  v_bankAccount :: string
  v_fmtUsdc :: "rat \<Rightarrow> string"
  v_dateParse :: "string \<Rightarrow> int option"

definition enqueueSnackbar :: "string \<Rightarrow> string \<Rightarrow> State \<Rightarrow> State" where
  "enqueueSnackbar message variant st = st\<lparr> snackbar := snackbar st @ [(message, variant)] \<rparr>"

section \<open>Wallet request guard\<close>

text \<open>
  \<^verbatim>\<open>runWalletTx(fn)\<close>. The operation \<open>fn\<close> is given the state at the moment it is invoked
  and returns its outcome (\<open>Inl\<close> the value it throws or rejects with) together with the
  state at the moment it settles: whatever else the application did while the operation
  was pending, a further call of \<^verbatim>\<open>runWalletTx\<close> included, is part of \<open>fn\<close>.
  \<open>guardAcquire\<close> is what an accepted call does before it invokes the operation.
\<close>

definition pendingError :: error where
  "pendingError =
     Error ''Wallet request already pending. Open Pera and approve/reject it first.''"

definition guardAcquire :: "State \<Rightarrow> State" where
  "guardAcquire st =
     st\<lparr> walletRequestInFlight := True, walletRequestBusy := True,
         walletPendingError := False, walletPendingDetail := [] \<rparr>"

text \<open>
  What follows the \<^verbatim>\<open>await\<close>: the \<^verbatim>\<open>try\<close> and \<^verbatim>\<open>catch\<close> branches, then the
  \<^verbatim>\<open>finally\<close> clause.
\<close>

definition guardSettle :: "(error + 'a) \<times> State \<Rightarrow> (error + 'a) \<times> State" where
  "guardSettle settled =
     (case settled of
        (outcome, st2) \<Rightarrow>
          (case (case outcome of
                   Inr value \<Rightarrow>
                     (Inr value, st2\<lparr> walletPendingError := False, walletPendingDetail := [] \<rparr>)
                 | Inl e \<Rightarrow>
                     let message = err e
                     in if isPendingWalletRequestError message then
                          (Inl (Error (''Pera already has a pending request. Use ''
                                       @ [CHR 0x22] @ ''Reset Wallet Session'' @ [CHR 0x22]
                                       @ '' below, then reconnect Pera.'')),
                           st2\<lparr> walletPendingError := True, walletPendingDetail := message \<rparr>)
                        else (Inl e, st2)) of
             (result, st3) \<Rightarrow>
               (result, st3\<lparr> walletRequestInFlight := False, walletRequestBusy := False \<rparr>)))"

definition runWalletTx ::
  "(State \<Rightarrow> (error + 'a) \<times> State) \<Rightarrow> State \<Rightarrow> (error + 'a) \<times> State" where
  "runWalletTx fn st =
     (if walletRequestInFlight st then
        (Inl pendingError, st\<lparr> walletPendingError := True \<rparr>)
      else guardSettle (fn (guardAcquire st)))"

section \<open>Vault sync\<close>

record IndexerTxn =
  x_id :: "string option"
  x_confirmedRound :: "rat option"
  x_sender :: "string option"
  x_roundTime :: "rat option"

text \<open>
  The answers of the outside to one \<^verbatim>\<open>refresh\<close>: the \<^verbatim>\<open>totalDeposited\<close> entry of the global
  state, the account information of the vault, and the transactions the indexer returns;
  \<open>Inl\<close> is the error of a call that fails.
\<close>

record RefreshEnv =
  f_globalState :: "error + int option"
  f_accountInfo :: "error + AccountInfo"
  f_transactions :: "error + IndexerTxn list option"

definition truthyAppId :: "int option \<Rightarrow> bool" where
  "truthyAppId appId = (case appId of None \<Rightarrow> False | Some n \<Rightarrow> n \<noteq> 0)"

definition truthyString :: "string option \<Rightarrow> bool" where
  "truthyString s = (case s of None \<Rightarrow> False | Some t \<Rightarrow> t \<noteq> [])"

definition refresh :: "View \<Rightarrow> RefreshEnv \<Rightarrow> int option \<Rightarrow> State \<Rightarrow> (error + unit) \<times> State" where
  "refresh v fenv target st =
     (let current = (case target of Some t \<Rightarrow> Some t | None \<Rightarrow> v_appId v)
      in if \<not> truthyAppId current \<or> \<not> validAsset (v_parsedAsset v) then (Inr (), st)
         else
           (case f_globalState fenv of
              Inl e \<Rightarrow> (Inl e, st)
            | Inr deposited \<Rightarrow>
                let st1 = st\<lparr> totalDeposited :=
                                 of_int (case deposited of Some n \<Rightarrow> n | None \<Rightarrow> 0) \<rparr>
                in (case getVaultUsdcBalance (v_parsedAsset v) (f_accountInfo fenv) of
                      Inl e \<Rightarrow> (Inl e, st1)
                    | Inr balance \<Rightarrow>
                        let st2 = st1\<lparr> vaultBalance := balance \<rparr>
                        in (case f_transactions fenv of
                              Inl e \<Rightarrow> (Inl e, st2)
                            | Inr transactions \<Rightarrow>
                                (Inr (),
                                 st2\<lparr> onChain :=
                                   map (\<lambda>txn. \<lparr> o_txId = (case x_id txn of Some i \<Rightarrow> i | None \<Rightarrow> []),
                                               o_round = x_confirmedRound txn,
                                               o_sender = x_sender txn,
                                               o_time = x_roundTime txn \<rparr>)
                                     (filter (\<lambda>txn. truthyString (x_id txn))
                                        (case transactions of Some ts \<Rightarrow> ts | None \<Rightarrow> [])) \<rparr>)))))"

section \<open>Payout\<close>

record PayoutResult =
  r_txIds :: "string list"
  r_confirmedRound :: "rat option"

text \<open>
  The answers of the outside to one \<^verbatim>\<open>executePayment\<close>: the clock (\<^verbatim>\<open>Date.now()\<close>), the
  identifier \<^verbatim>\<open>makeId()\<close> returns, the timestamp of the activity record, the account
  information of the vault, the outcome of the opt-in query, the outcome of the payout
  call once the wallet has signed or refused it, and the answers to the closing
  \<^verbatim>\<open>refresh\<close>.
\<close>

record PayEnv =
  e_now :: rat
  e_makeId :: string
  e_at :: string
  e_accountInfo :: "error + AccountInfo"
  e_assetInfo :: "error option"
  e_payout :: "error + PayoutResult"
  e_refresh :: RefreshEnv

text \<open>
  The operation handed to the guard: the arguments are converted first (a
  \<^verbatim>\<open>RangeError\<close> for an amount that is no integer), then the call is made.
\<close>

definition payoutOperation ::
  "View \<Rightarrow> PayEnv \<Rightarrow> Contractor \<Rightarrow> rat \<Rightarrow> State \<Rightarrow> (error + PayoutResult) \<times> State" where
  "payoutOperation v env contractor amountUsdc st =
     (case BigInt_of_number (v_parsedAsset v) of
        Inl e \<Rightarrow> (Inl e, st)
      | Inr asset \<Rightarrow>
          (case BigInt_of_number (Some amountUsdc) of
             Inl e \<Rightarrow> (Inl e, st)
           | Inr amount \<Rightarrow>
               (e_payout env,
                st\<lparr> payoutCalls := payoutCalls st @
                      [\<lparr> k_recipient = c_address contractor, k_asset = asset,
                         k_amount = amount,
                         k_sender = (case v_activeAddress v of Some a \<Rightarrow> a | None \<Rightarrow> []) \<rparr>] \<rparr>)))"

text \<open>The updater of \<^verbatim>\<open>setContractors\<close> in \<^verbatim>\<open>executePayment\<close>, on one contractor.\<close>

definition creditContractor :: "string \<Rightarrow> Mode \<Rightarrow> rat \<Rightarrow> Quote \<Rightarrow> Contractor \<Rightarrow> Contractor" where
  "creditContractor contractorId mode amountUsdc fxQuote c =
     (if c_id c \<noteq> contractorId then c
      else if mode = auto_swap \<and> c_preferred c \<noteq> USDC then
        c\<lparr> c_local := c_local c + q_output fxQuote, c_assetOptedIn := Some True \<rparr>
      else c\<lparr> c_usdc := c_usdc c + amountUsdc, c_assetOptedIn := Some True \<rparr>)"

text \<open>The updater of \<^verbatim>\<open>setSchedules\<close> in \<^verbatim>\<open>executePayment\<close>, on one targeted schedule.\<close>

definition advanceSchedule :: "(string \<Rightarrow> int option) \<Rightarrow> Schedule \<Rightarrow> error + Schedule" where
  "advanceSchedule other s =
     (case nextDate other (s_nextDate s) (s_cadence s) of
        Inl e \<Rightarrow> Inl e
      | Inr None \<Rightarrow> Inr (s\<lparr> s_status := completed \<rparr>)
      | Inr (Some next) \<Rightarrow>
          if next = [] then Inr (s\<lparr> s_status := completed \<rparr>)
          else Inr (s\<lparr> s_nextDate := next \<rparr>))"

fun updateSchedules ::
  "(string \<Rightarrow> int option) \<Rightarrow> string \<Rightarrow> Schedule list \<Rightarrow> error + Schedule list" where
  "updateSchedules other scheduleId [] = Inr []"
| "updateSchedules other scheduleId (s # rest) =
     (case (if s_id s \<noteq> scheduleId then Inr s else advanceSchedule other s) of
        Inl e \<Rightarrow> Inl e
      | Inr s' \<Rightarrow>
          (case updateSchedules other scheduleId rest of
             Inl e \<Rightarrow> Inl e
           | Inr rest' \<Rightarrow> Inr (s' # rest')))"

text \<open>What one schedule becomes under a successful \<^const>\<open>updateSchedules\<close>.\<close>

definition scheduleStep :: "(string \<Rightarrow> int option) \<Rightarrow> string \<Rightarrow> Schedule \<Rightarrow> Schedule \<Rightarrow> bool" where
  "scheduleStep other sid s s' =
     (if s_id s \<noteq> sid then s' = s else advanceSchedule other s = Inr s')"

text \<open>
  The part of \<^verbatim>\<open>executePayment\<close> after a payout call that resolved: the three state
  updates and the closing \<^verbatim>\<open>refresh\<close>.
\<close>

definition recordPayment ::
  "View \<Rightarrow> PayEnv \<Rightarrow> string \<Rightarrow> rat \<Rightarrow> Mode \<Rightarrow> string option \<Rightarrow> Quote \<Rightarrow> PayoutResult
   \<Rightarrow> State \<Rightarrow> (error + unit) \<times> State" where
  "recordPayment v env contractorId amountUsdc mode scheduleId fxQuote result st =
     (let txId = (if r_txIds result \<noteq> [] then Some (last (r_txIds result)) else None);
          round = r_confirmedRound result;
          st1 = st\<lparr> contractors :=
                       map (creditContractor contractorId mode amountUsdc fxQuote)
                         (contractors st) \<rparr>;
          st2 = st1\<lparr> activity :=
                        \<lparr> a_id = e_makeId env, a_kind = payment, a_at = e_at env,
                          a_contractorId = Some contractorId, a_txId = txId, a_round = round,
                          a_usdc = Some amountUsdc, a_currency = Some (q_currency fxQuote),
                          a_output = Some (q_output fxQuote),
                          a_note = ''Employer payout executed'' \<rparr> # activity st1 \<rparr>;
          st3 = (case scheduleId of
                   None \<Rightarrow> st2
                 | Some sid \<Rightarrow>
                     if sid = [] then st2
                     else
                       (case updateSchedules (v_dateParse v) sid (schedules st2) of
                          Inl e \<Rightarrow> st2\<lparr> renderFailed := True \<rparr>
                        | Inr updated \<Rightarrow> st2\<lparr> schedules := updated \<rparr>))
      in refresh v (e_refresh env) None st3)"

text \<open>The two errors of the payout preconditions.\<close>

definition insufficientVault :: "View \<Rightarrow> rat \<Rightarrow> rat \<Rightarrow> error" where
  "insufficientVault v available amountUsdc =
     Error (''Insufficient vault balance: '' @ v_fmtUsdc v available @ '' USDCa available, ''
            @ v_fmtUsdc v amountUsdc @ '' required'')"

definition mustOptIn :: "View \<Rightarrow> error" where
  "mustOptIn v =
     Error (''Contractor wallet must opt-in to asset '' @ numberToString (v_parsedAsset v)
            @ '' before payout'')"

text \<open>\<^verbatim>\<open>executePayment(contractorId, amountUsdc, mode, scheduleId?)\<close>.\<close>

definition executePayment ::
  "View \<Rightarrow> PayEnv \<Rightarrow> string \<Rightarrow> rat \<Rightarrow> Mode \<Rightarrow> string option \<Rightarrow> State
   \<Rightarrow> (error + unit) \<times> State" where
  "executePayment v env contractorId amountUsdc mode scheduleId st =
     (if \<not> truthyAppId (v_appId v) \<or> \<not> truthyString (v_activeAddress v)
         \<or> \<not> v_transactionSigner v
      then (Inl (Error ''Connect wallet and set app id''), st)
      else if \<not> validAsset (v_parsedAsset v) then (Inl (Error ''Invalid USDC asset ID''), st)
      else
        (case find (\<lambda>c. c_id c = contractorId) (v_contractors v) of
           None \<Rightarrow> (Inl (Error ''Contractor not found''), st)
         | Some contractor \<Rightarrow>
             (case getVaultUsdcBalance (v_parsedAsset v) (e_accountInfo env) of
                Inl e \<Rightarrow> (Inl e, st)
              | Inr available \<Rightarrow>
                  if amountUsdc > available then
                    (Inl (insufficientVault v available amountUsdc), st)
                  else
                    (case isAddressOptedInToAsset (v_parsedAsset v) (e_assetInfo env) of
                       Inl e \<Rightarrow> (Inl e, st)
                     | Inr optedIn \<Rightarrow>
                         if \<not> optedIn then
                           (Inl (mustOptIn v), st)
                         else
                           let st1 = st\<lparr> loading := ''payment'' \<rparr>;
                               fxQuote = quoteFor amountUsdc
                                           (if mode = auto_swap then c_preferred contractor
                                            else USDC) (e_now env);
                               (outcome, st2) =
                                 runWalletTx (payoutOperation v env contractor amountUsdc) st1
                           in (case outcome of
                                 Inl e \<Rightarrow> (Inl e, st2)
                               | Inr result \<Rightarrow>
                                   recordPayment v env contractorId amountUsdc mode scheduleId
                                     fxQuote result st2)))))"

text \<open>
  The checks of \<^verbatim>\<open>executePayment\<close> on the wallet, the vault and the asset id, together.
\<close>

definition readyToPay :: "View \<Rightarrow> bool" where
  "readyToPay v \<longleftrightarrow>
     truthyAppId (v_appId v) \<and> truthyString (v_activeAddress v) \<and> v_transactionSigner v
     \<and> validAsset (v_parsedAsset v)"

section \<open>Schedule processor\<close>

definition dueSchedules :: "View \<Rightarrow> Schedule list" where
  "dueSchedules v =
     filter (\<lambda>s. s_status s = active \<and> str_le (s_nextDate s) (v_today v)) (v_schedules v)"

text \<open>
  The loop of \<^verbatim>\<open>processDue\<close> over the due schedules. \<open>envs i\<close> holds the answers of the
  outside to the attempt of index \<open>i\<close>. Besides the counter and the state, the function
  returns the attempts made: the identifier of the schedule handed to each call of
  \<^verbatim>\<open>executePayment\<close> and the outcome of the call, in the order of the calls.
\<close>

fun processLoop ::
  "View \<Rightarrow> (nat \<Rightarrow> PayEnv) \<Rightarrow> nat \<Rightarrow> Schedule list \<Rightarrow> nat \<Rightarrow> State
   \<Rightarrow> (string \<times> (error + unit)) list \<times> nat \<times> State" where
  "processLoop v envs i [] success st = ([], success, st)"
| "processLoop v envs i (s # rest) success st =
     (case executePayment v (envs i) (s_contractorId s) (s_amountUsdc s) (s_mode s)
             (Some (s_id s)) st of
        (Inr u, st') \<Rightarrow>
          (case processLoop v envs (Suc i) rest (success + 1) st' of
             (attempts, n, st'') \<Rightarrow> ((s_id s, Inr u) # attempts, n, st''))
      | (Inl e, st') \<Rightarrow>
          (case processLoop v envs (Suc i) rest success
                  (enqueueSnackbar (''Schedule payment failed: '' @ err e) ''error'' st') of
             (attempts, n, st'') \<Rightarrow> ((s_id s, Inl e) # attempts, n, st'')))"

definition processDue ::
  "View \<Rightarrow> (nat \<Rightarrow> PayEnv) \<Rightarrow> State \<Rightarrow> (string \<times> (error + unit)) list \<times> State" where
  "processDue v envs st =
     (if length (dueSchedules v) = 0 then
        ([], enqueueSnackbar ''No due schedules'' ''info'' st)
      else
        (case processLoop v envs 0 (dueSchedules v) 0 (st\<lparr> loading := ''schedule'' \<rparr>) of
           (attempts, success, st') \<Rightarrow>
             (attempts,
              enqueueSnackbar
                (''Processed '' @ decimal success @ ''/'' @ decimal (length (dueSchedules v))
                 @ '' due schedules'')
                ''success'' (st'\<lparr> loading := [] \<rparr>))))"

text \<open>An attempt whose call of \<^verbatim>\<open>executePayment\<close> returned without throwing.\<close>

definition succeeded :: "string \<times> (error + unit) \<Rightarrow> bool" where
  "succeeded attempt = (case snd attempt of Inr u \<Rightarrow> True | Inl e \<Rightarrow> False)"

section \<open>Cash-out simulator\<close>

text \<open>
  \<^verbatim>\<open>toUsdc\<close> on \<^verbatim>\<open>Number(value)\<close>; \<^verbatim>\<open>Math.round(x)\<close> is \<open>\<lfloor>x + 1/2\<rfloor>\<close>. The test
  \<^verbatim>\<open>!amount || amount <= 0\<close> holds of \<^verbatim>\<open>NaN\<close>, of zero and of a negative number.
\<close>

definition toUsdc :: "rat option \<Rightarrow> rat option" where
  "toUsdc value = map_option (\<lambda>x. of_int \<lfloor>x * SCALE + 1 / 2\<rfloor>) value"

text \<open>The clock, the fresh identifier and the timestamp one \<^verbatim>\<open>runCashOut\<close> reads.\<close>

record Ambient =
  m_makeId :: string
  m_at :: string
  m_now :: rat

definition cashOutFailed :: "string \<Rightarrow> State \<Rightarrow> State" where
  "cashOutFailed message st = enqueueSnackbar (''Cash-out failed: '' @ message) ''error'' st"

definition runCashOut :: "View \<Rightarrow> Ambient \<Rightarrow> State \<Rightarrow> State" where
  "runCashOut v amb st =
     (case find (\<lambda>c. c_id c = v_selected v) (v_contractors v) of
        None \<Rightarrow> enqueueSnackbar ''Select contractor first'' ''error'' st
      | Some selectedContractor \<Rightarrow>
          if v_cashMode v = hold then
            st\<lparr> activity :=
                  \<lparr> a_id = m_makeId amb, a_kind = cashout, a_at = m_at amb,
                    a_contractorId = Some (c_id selectedContractor), a_txId = None,
                    a_round = None, a_usdc = None, a_currency = None, a_output = None,
                    a_note = ''Contractor selected Hold mode'' \<rparr> # activity st \<rparr>
          else if v_cashMode v = instant then
            (case toUsdc (v_cashAmount v) of
               None \<Rightarrow> cashOutFailed ''Invalid USDC amount'' st
             | Some amount \<Rightarrow>
                 if amount = 0 \<or> amount \<le> 0 then cashOutFailed ''Invalid USDC amount'' st
                 else if amount > c_usdc selectedContractor then
                   cashOutFailed ''Insufficient USDC balance'' st
                 else
                   let fxQuote = quoteFor amount (c_preferred selectedContractor) (m_now amb);
                       st1 = st\<lparr> contractors :=
                                    map (\<lambda>c. if c_id c = c_id selectedContractor
                                             then c\<lparr> c_usdc := c_usdc c - amount,
                                                    c_local := c_local c + q_output fxQuote \<rparr>
                                             else c)
                                      (contractors st) \<rparr>;
                       st2 = st1\<lparr> activity :=
                                     \<lparr> a_id = m_makeId amb, a_kind = cashout, a_at = m_at amb,
                                       a_contractorId = Some (c_id selectedContractor),
                                       a_txId = None, a_round = None, a_usdc = Some amount,
                                       a_currency = Some (q_currency fxQuote),
                                       a_output = Some (q_output fxQuote),
                                       a_note = ''Instant swap cash-out'' \<rparr> # activity st1 \<rparr>
                   in enqueueSnackbar ''Instant cash-out completed'' ''success'' st2)
          else
            (case v_cashAmount v of
               None \<Rightarrow> cashOutFailed ''Invalid local amount'' st
             | Some local \<Rightarrow>
                 if local = 0 \<or> local \<le> 0 then cashOutFailed ''Invalid local amount'' st
                 else if local > c_local selectedContractor then
                   cashOutFailed ''Insufficient local stable balance'' st
                 else if trim (v_bankAccount v) = [] then
                   cashOutFailed ''Enter bank account'' st
                 else
                   let st1 = st\<lparr> contractors :=
                                    map (\<lambda>c. if c_id c = c_id selectedContractor
                                             then c\<lparr> c_local := c_local c - local \<rparr>
                                             else c)
                                      (contractors st) \<rparr>;
                       st2 = st1\<lparr> activity :=
                                     \<lparr> a_id = m_makeId amb, a_kind = cashout, a_at = m_at amb,
                                       a_contractorId = Some (c_id selectedContractor),
                                       a_txId = None, a_round = None, a_usdc = None,
                                       a_currency = Some (c_preferred selectedContractor),
                                       a_output = Some local,
                                       a_note = ''Standard transfer initiated to ''
                                                @ trim (v_bankAccount v) \<rparr> # activity st1 \<rparr>
                   in enqueueSnackbar ''Mock bank transfer initiated'' ''success'' st2))"

section \<open>Example data\<close>

text \<open>Concrete values, for the instances of the theorems below.\<close>

definition holding :: "numeric option \<Rightarrow> numeric option \<Rightarrow> numeric option \<Rightarrow> AssetHolding" where
  "holding a b c = \<lparr> h_assetId = a, h_asset_id = b, h_amount = c \<rparr>"

definition storedObject :: json where
  "storedObject = JObject [(''appId'', JNumber 1001), (''assetId'', JString ''31566704''),
     (''contractors'', JString ''oops''), (''schedules'', JArray [JNumber 1]),
     (''activity'', JArray []), (''selected'', JString ''c-1'')]"

definition idle :: State where
  "idle = \<lparr> contractors = [], schedules = [], activity = [], loading = [],
     walletRequestInFlight = False, walletRequestBusy = False, walletPendingError = False,
     walletPendingDetail = [], vaultBalance = 0, totalDeposited = 0, onChain = [],
     snackbar = [], payoutCalls = [], renderFailed = False \<rparr>"

definition alice :: Contractor where
  "alice = \<lparr> c_id = ''c-alice'', c_name = ''Alice'', c_email = ''alice@example.org'',
     c_address = ''ALICEADDR'', c_preferred = MXN, c_bankHint = [], c_generated = False,
     c_assetOptedIn = Some False, c_usdc = 500000000, c_local = 10 \<rparr>"

definition bob :: Contractor where
  "bob = \<lparr> c_id = ''c-bob'', c_name = ''Bob'', c_email = ''bob@example.org'',
     c_address = ''BOBADDR'', c_preferred = USDC, c_bankHint = [], c_generated = True,
     c_assetOptedIn = None, c_usdc = 0, c_local = 0 \<rparr>"

definition exSchedule :: "string \<Rightarrow> string \<Rightarrow> Cadence \<Rightarrow> string \<Rightarrow> Status \<Rightarrow> Schedule" where
  "exSchedule i c cadence date status =
     \<lparr> s_id = i, s_contractorId = c, s_amountUsdc = 1000000, s_cadence = cadence,
       s_mode = auto_swap, s_nextDate = date, s_status = status \<rparr>"

definition exState :: State where
  "exState = idle\<lparr> contractors := [alice, bob],
     schedules := [exSchedule ''s-1'' ''c-alice'' weekly ''2025-01-31'' active,
                   exSchedule ''s-2'' ''c-bob'' one_time ''2025-02-01'' active,
                   exSchedule ''s-3'' ''c-alice'' monthly ''2025-01-31'' active,
                   exSchedule ''s-4'' ''c-alice'' monthly ''2025-03-31'' active,
                   exSchedule ''s-5'' ''c-bob'' weekly ''2025-01-01'' completed] \<rparr>"

definition exView :: View where
  "exView = \<lparr> v_appId = Some 1001, v_activeAddress = Some ''EMPLOYERADDR'',
     v_transactionSigner = True, v_parsedAsset = Some 5, v_contractors = contractors exState,
     v_schedules = schedules exState, v_today = ''2025-02-01'', v_selected = ''c-alice'',
     v_cashMode = instant, v_cashAmount = Some 200, v_bankAccount = [],
     v_fmtUsdc = (\<lambda>micro. decimal (nat \<lfloor>micro / SCALE\<rfloor>)), v_dateParse = (\<lambda>s. None) \<rparr>"

definition exInfo :: AccountInfo where
  "exInfo = \<lparr> i_assets = Some [holding None (Some (JsNumber 4)) (Some (JsNumber 9)),
                             holding (Some (JsBigInt 5)) None (Some (JsBigInt 5000000))] \<rparr>"

definition exRefresh :: RefreshEnv where
  "exRefresh = \<lparr> f_globalState = Inr (Some 8000000), f_accountInfo = Inr exInfo,
                  f_transactions = Inr None \<rparr>"

definition exEnv :: PayEnv where
  "exEnv = \<lparr> e_now = 1738404000000, e_makeId = ''id-1'', e_at = ''2025-02-01T10:00:00.000Z'',
     e_accountInfo = Inr exInfo, e_assetInfo = None,
     e_payout = Inr \<lparr> r_txIds = [''TXA'', ''TXB''], r_confirmedRound = Some 42 \<rparr>,
     e_refresh = exRefresh \<rparr>"

definition notOptedIn :: error where
  "notOptedIn = Error ''account BOBADDR has not opted in to asset 5''"

definition exEnvs :: "nat \<Rightarrow> PayEnv" where
  "exEnvs i = (if i = 1 then exEnv\<lparr> e_payout := Inl (Error ''user rejected'') \<rparr> else exEnv)"

text \<open>The payout call resolves, and the search of the indexer in the closing refresh fails.\<close>

definition refreshDown :: PayEnv where
  "refreshDown = exEnv\<lparr> e_refresh := exRefresh\<lparr> f_transactions := Inl (Error ''indexer down'') \<rparr> \<rparr>"

definition exAmbient :: Ambient where
  "exAmbient = \<lparr> m_makeId = ''id-9'', m_at = ''2025-02-01T12:00:00.000Z'', m_now = 1738411200000 \<rparr>"

section \<open>Properties of the quote engine\<close>

text \<open>
  C1 (as stated in the specification, refuted): the output of a quote would be
  \<open>a * rate c * 0.995\<close> for a non-native currency and \<open>a\<close> itself for the native one.
  The amount handed to \<^const>\<open>quoteFor\<close> is in micro-units and the function divides it by
  \<^const>\<open>SCALE\<close> first: one million micro-units quote to 1 in the native currency and to
  16.915 in MXN.
\<close>

theorem quoteFor_unscaled_counterexample:
  "q_output (quoteFor 1000000 USDC 0) \<noteq> 1000000
   \<and> q_output (quoteFor 1000000 MXN 0) \<noteq> 1000000 * RATES MXN * 0.995"
  by (simp add: quoteFor_def SCALE_def Let_def)

text \<open>
  C1 (amended): for every amount \<open>a\<close> of micro-units, the quote's output is
  \<open>a / 1000000\<close> for the native currency, and \<open>(a / 1000000) * rate c * 0.995\<close> for
  every other currency \<open>c\<close> of the rate table; the quote records the amount and the
  currency it was asked for, and the rate of the table.
\<close>

theorem quoteFor_output:
  "q_output (quoteFor a USDC now) = a / 1000000
   \<and> (c \<noteq> USDC \<longrightarrow> q_output (quoteFor a c now) = (a / 1000000) * RATES c * 0.995)
   \<and> q_amountUsdc (quoteFor a c now) = a
   \<and> q_currency (quoteFor a c now) = c
   \<and> q_rate (quoteFor a c now) = RATES c"
  by (simp add: quoteFor_def SCALE_def Let_def)

theorem quoteFor_output_witness:
  "MXN \<noteq> USDC \<and> q_output (quoteFor 200000000 MXN 0) = 3383
   \<and> q_output (quoteFor 200000000 USDC 0) = 200"
  using quoteFor_output [of 200000000 0 MXN] by (simp add: quoteFor_def SCALE_def Let_def)

section \<open>The calendar\<close>

text \<open>
  The year of a day number is found by an estimate and one correction; the lemmas below
  show that it is the year the standard defines, and that day numbers and calendar dates
  correspond.
\<close>

lemma div_bounds:
  fixes x n :: int
  assumes "0 < n"
  shows "n * (x div n) \<le> x" and "x < n * (x div n) + n"
proof -
  have "x = n * (x div n) + x mod n" by simp
  moreover have "0 \<le> x mod n" "x mod n < n" using assms by simp_all
  ultimately show "n * (x div n) \<le> x" and "x < n * (x div n) + n" by linarith+
qed

lemma DayFromYear_bounds:
  "146097 * (y - 1970) - 1000 \<le> 400 * DayFromYear y"
  "400 * DayFromYear y \<le> 146097 * (y - 1970) + 1000"
proof -
  define q4 where "q4 = (y - 1969) div 4"
  define q100 where "q100 = (y - 1901) div 100"
  define q400 where "q400 = (y - 1601) div 400"
  have a: "4 * q4 \<le> y - 1969" "y - 1969 < 4 * q4 + 4"
    unfolding q4_def by (rule div_bounds, simp)+
  have b: "100 * q100 \<le> y - 1901" "y - 1901 < 100 * q100 + 100"
    unfolding q100_def by (rule div_bounds, simp)+
  have c: "400 * q400 \<le> y - 1601" "y - 1601 < 400 * q400 + 400"
    unfolding q400_def by (rule div_bounds, simp)+
  have d: "DayFromYear y = 365 * (y - 1970) + q4 - q100 + q400"
    by (simp add: DayFromYear_def q4_def q100_def q400_def)
  show "146097 * (y - 1970) - 1000 \<le> 400 * DayFromYear y"
    using a b c unfolding d by (simp add: algebra_simps)
  show "400 * DayFromYear y \<le> 146097 * (y - 1970) + 1000"
    using a b c unfolding d by (simp add: algebra_simps)
qed

lemma div_succ:
  fixes k n :: int
  assumes "0 < n"
  shows "(k + 1) div n = k div n + (if (k + 1) mod n = 0 then 1 else 0)"
proof -
  define q where "q = k div n"
  define r where "r = k mod n"
  have k: "k = n * q + r" by (simp add: q_def r_def)
  have r: "0 \<le> r" "r < n" using assms by (simp_all add: r_def)
  show ?thesis
  proof (cases "r + 1 = n")
    case True
    have e: "k + 1 = n * (q + 1) + 0" using k True by (simp add: algebra_simps)
    have "(k + 1) div n = q + 1" by (rule int_div_pos_eq [OF e]) (use assms in simp_all)
    moreover have "(k + 1) mod n = 0" by (rule int_mod_pos_eq [OF e]) (use assms in simp_all)
    ultimately show ?thesis by (simp add: q_def)
  next
    case False
    have e: "k + 1 = n * q + (r + 1)" using k by simp
    have lt: "r + 1 < n" using False r by simp
    have "(k + 1) div n = q" by (rule int_div_pos_eq [OF e]) (use r lt in simp_all)
    moreover have "(k + 1) mod n = r + 1" by (rule int_mod_pos_eq [OF e]) (use r lt in simp_all)
    ultimately show ?thesis using r by (simp add: q_def)
  qed
qed

lemma DayFromYear_Suc: "DayFromYear (y + 1) = DayFromYear y + DaysInYear y"
proof -
  have m4: "(y - 1969 + 1) mod 4 = y mod 4"
    using mod_mult_self1 [of y "- 492" 4] by simp
  have m100: "(y - 1901 + 1) mod 100 = y mod 100"
    using mod_mult_self1 [of y "- 19" 100] by simp
  have m400: "(y - 1601 + 1) mod 400 = y mod 400"
    using mod_mult_self1 [of y "- 4" 400] by simp
  have a: "(y + 1 - 1969) div 4 = (y - 1969) div 4 + (if y mod 4 = 0 then 1 else 0)"
    using div_succ [of 4 "y - 1969"] unfolding m4 by (simp add: algebra_simps)
  have b: "(y + 1 - 1901) div 100 = (y - 1901) div 100 + (if y mod 100 = 0 then 1 else 0)"
    using div_succ [of 100 "y - 1901"] unfolding m100 by (simp add: algebra_simps)
  have c: "(y + 1 - 1601) div 400 = (y - 1601) div 400 + (if y mod 400 = 0 then 1 else 0)"
    using div_succ [of 400 "y - 1601"] unfolding m400 by (simp add: algebra_simps)
  have d: "y mod 400 = 0 \<Longrightarrow> y mod 100 = 0"
    using mod_mod_cancel [of 100 400 y] by simp
  have e: "y mod 100 = 0 \<Longrightarrow> y mod 4 = 0" 
    using mod_mod_cancel [of 4 100 y] by simp
  show ?thesis
    unfolding DayFromYear_def DaysInYear_def a b c using d e by auto
qed

lemma YearFromDay_spec:
  "DayFromYear (YearFromDay d) \<le> d \<and> d < DayFromYear (YearFromDay d + 1)"
proof -
  define y0 where "y0 = 1970 + (d * 400) div 146097"
  have q: "146097 * (y0 - 1970) \<le> d * 400" "d * 400 < 146097 * (y0 - 1970) + 146097"
    unfolding y0_def using div_bounds [of 146097 "d * 400"] by simp_all
  have "400 * DayFromYear (y0 - 1) \<le> d * 400"
    using q(1) DayFromYear_bounds(2) [of "y0 - 1"] by (simp add: algebra_simps)
  then have lo: "DayFromYear (y0 - 1) \<le> d" by simp
  have "d * 400 < 400 * DayFromYear (y0 + 2)"
    using q(2) DayFromYear_bounds(1) [of "y0 + 2"] by (simp add: algebra_simps)
  then have hi: "d < DayFromYear (y0 + 2)" by simp
  have two: "y0 + 1 + 1 = y0 + 2" "y0 - 1 + 1 = y0" by simp_all
  show ?thesis
    unfolding YearFromDay_def y0_def [symmetric] Let_def
    using lo hi by (simp add: two)
qed

lemma DaysInYear_cases: "DaysInYear y = 365 \<or> DaysInYear y = 366"
  by (simp add: DaysInYear_def)

lemma DayFromYear_add: "DayFromYear y + 365 * int n \<le> DayFromYear (y + int n)"
proof (induction n)
  case 0
  then show ?case by simp
next
  case (Suc n)
  have "DayFromYear (y + int (Suc n)) = DayFromYear (y + int n) + DaysInYear (y + int n)"
    using DayFromYear_Suc [of "y + int n"] by (simp add: add.commute add.left_commute)
  then show ?case using Suc DaysInYear_cases [of "y + int n"] by auto
qed

lemma DayFromYear_mono: 
  assumes "y \<le> y'"
  shows "DayFromYear y \<le> DayFromYear y'"
proof -
  have "DayFromYear y + 365 * int (nat (y' - y)) \<le> DayFromYear (y + int (nat (y' - y)))"
    by (rule DayFromYear_add)
  then show ?thesis using assms by simp
qed

lemma YearFromDay_unique:
  assumes "DayFromYear y \<le> n" and "n < DayFromYear (y + 1)"
  shows "YearFromDay n = y"
proof (rule ccontr)
  assume ne: "YearFromDay n \<noteq> y"
  note sp = YearFromDay_spec [of n]
  show False
  proof (cases "YearFromDay n < y")
    case True
    then have "DayFromYear (YearFromDay n + 1) \<le> DayFromYear y"
      by (intro DayFromYear_mono) simp
    then show False using sp assms by simp
  next
    case False
    then have "DayFromYear (y + 1) \<le> DayFromYear (YearFromDay n)"
      using ne by (intro DayFromYear_mono) simp
    then show False using sp assms by simp
  qed
qed

lemma Day_of_midnight [simp]: "Day (n * msPerDay) = n" "TimeWithinDay (n * msPerDay) = 0"
  by (simp_all add: Day_def TimeWithinDay_def msPerDay_def)

lemma month_cases:
  fixes m :: int
  assumes "1 \<le> m" "m \<le> 12"
  shows "m = 1 \<or> m = 2 \<or> m = 3 \<or> m = 4 \<or> m = 5 \<or> m = 6 \<or> m = 7 \<or> m = 8 \<or> m = 9
         \<or> m = 10 \<or> m = 11 \<or> m = 12"
  using assms by arith

lemma LeapDays_cases: "LeapDays y = 0 \<or> LeapDays y = 1"
  by (simp add: LeapDays_def)

lemma DaysInYear_LeapDays: "DaysInYear y = 365 + LeapDays y"
  using DaysInYear_cases [of y] by (auto simp: LeapDays_def)

lemma FirstDayOfMonth_range:
  assumes "1 \<le> m" "m \<le> 12" "1 \<le> d" "d \<le> DaysInMonth y m"
  shows "0 \<le> FirstDayOfMonth (LeapDays y) (m - 1) + d - 1"
    and "FirstDayOfMonth (LeapDays y) (m - 1) + d - 1 < DaysInYear y"
proof -
  note m = month_cases [OF assms(1,2)]
  note l = LeapDays_cases [of y]
  show "0 \<le> FirstDayOfMonth (LeapDays y) (m - 1) + d - 1"
    using m assms(3) l by (elim disjE) (simp_all add: FirstDayOfMonth_def)
  show "FirstDayOfMonth (LeapDays y) (m - 1) + d - 1 < DaysInYear y"
    using m assms(4) l unfolding DaysInYear_LeapDays
    by (elim disjE) (simp_all add: FirstDayOfMonth_def DaysInMonth_def)
qed

lemma MakeDay_in_year:
  assumes "0 \<le> k" "k \<le> 11"
  shows "MakeDay y k d = DayFromYear y + FirstDayOfMonth (LeapDays y) k + d - 1"
  using assms by (simp add: MakeDay_def Let_def)

lemma civil_of_MakeDay:
  assumes "1 \<le> m" "m \<le> 12" "1 \<le> d" "d \<le> DaysInMonth y m"
  defines "t \<equiv> MakeDay y (m - 1) d * msPerDay"
  shows "YearFromTime t = y" and "MonthFromTime t = m - 1" and "DateFromTime t = d"
proof -
  define w where "w = FirstDayOfMonth (LeapDays y) (m - 1) + d - 1"
  have day: "Day t = DayFromYear y + w"
    using assms(1,2) by (simp add: t_def MakeDay_in_year w_def)
  have w: "0 \<le> w" "w < DaysInYear y"
    unfolding w_def using FirstDayOfMonth_range [OF assms(1-4)] by simp_all
  show y: "YearFromTime t = y"
    unfolding YearFromTime_def day
    by (rule YearFromDay_unique) (use w DayFromYear_Suc [of y] in simp_all)
  have dwy: "DayWithinYear t = w"
    by (simp add: DayWithinYear_def y day)
  note m = month_cases [OF assms(1,2)]
  note l = LeapDays_cases [of y]
  show mo: "MonthFromTime t = m - 1"
    unfolding MonthFromTime_def y dwy w_def
    using m l assms(3,4)
    by (elim disjE)
       (simp_all add: MonthFromDayWithinYear_def FirstDayOfMonth_def DaysInMonth_def)
  show "DateFromTime t = d"
    unfolding DateFromTime_def mo y dwy w_def by simp
qed

lemma dayNumber_tomorrow:
  assumes "validDate x"
  shows "validDate (tomorrow x)" and "dayNumber (tomorrow x) = dayNumber x + 1"
proof -
  obtain y m d where x: "x = (y, m, d)" by (cases x)
  have v: "1 \<le> m" "m \<le> 12" "1 \<le> d" "d \<le> DaysInMonth y m"
    using assms by (simp_all add: x validDate_def)
  note mc = month_cases [OF v(1,2)]
  note l = LeapDays_cases [of y]
  have dim: "28 \<le> DaysInMonth y' m'" for y' m'
    using LeapDays_cases [of y'] by (auto simp: DaysInMonth_def)
  show "validDate (tomorrow x)"
    using v dim [of y "m + 1"] dim [of "y + 1" 1] by (simp add: x validDate_def tomorrow_def)
  show "dayNumber (tomorrow x) = dayNumber x + 1"
  proof (cases "d < DaysInMonth y m")
    case True
    then show ?thesis using v by (simp add: x tomorrow_def dayNumber_def MakeDay_in_year)
  next
    case last: False
    show ?thesis
    proof (cases "m < 12")
      case True
      have "FirstDayOfMonth (LeapDays y) m = FirstDayOfMonth (LeapDays y) (m - 1) + DaysInMonth y m"
        using mc True by (elim disjE) (simp_all add: FirstDayOfMonth_def DaysInMonth_def)
      then show ?thesis
        using v last True by (simp add: x tomorrow_def dayNumber_def MakeDay_in_year)
    next
      case False
      then have m12: "m = 12" using v by simp
      have step: "MakeDay (y + 1) 0 1 = MakeDay y 11 31 + 1"
        by (simp add: MakeDay_in_year DayFromYear_Suc DaysInYear_LeapDays FirstDayOfMonth_def)
      have d31: "d = 31" using v(4) last by (simp add: m12 DaysInMonth_def)
      show ?thesis
        using step by (simp add: x m12 d31 tomorrow_def dayNumber_def DaysInMonth_def)
    qed
  qed
qed

lemma dayNumber_funpow:
  assumes "validDate x"
  shows "validDate ((tomorrow ^^ n) x) \<and> dayNumber ((tomorrow ^^ n) x) = dayNumber x + int n"
proof (induction n)
  case 0
  then show ?case using assms by simp
next
  case (Suc n)
  then show ?case using dayNumber_tomorrow [of "(tomorrow ^^ n) x"] by simp
qed

lemma digitVal_digitChar:
  assumes "0 \<le> k" "k \<le> 9"
  shows "digitVal (digitChar k) = Some k"
proof -
  have "(48 + k) mod 256 = 48 + k" using assms by simp
  then show ?thesis using assms by (simp add: digitVal_def digitChar_def Let_def)
qed

lemma decimal2:
  fixes n :: int
  assumes "0 \<le> n" "n \<le> 99"
  shows "(n div 10 mod 10) * 10 + n mod 10 = n"
proof -
  have "n div 10 < 10" using assms by simp
  moreover have "0 \<le> n div 10" using assms by simp
  ultimately have "n div 10 mod 10 = n div 10" by simp
  then show ?thesis by simp
qed

lemma decimal4:
  fixes n :: int
  assumes "0 \<le> n" "n \<le> 9999"
  shows "(((n div 1000 mod 10) * 10 + n div 100 mod 10) * 10 + n div 10 mod 10) * 10 + n mod 10 = n"
proof -
  define a where "a = n div 10"
  define b where "b = a div 10"
  define c where "c = b div 10"
  have b': "n div 100 = b" unfolding b_def a_def using zdiv_zmult2_eq [of 10 n 10] by simp
  have c': "n div 1000 = c" unfolding c_def b_def a_def
    using zdiv_zmult2_eq [of 10 n 100] zdiv_zmult2_eq [of 10 n 10] by simp
  have "0 \<le> c" "c < 10" using assms unfolding c' [symmetric] by simp_all
  then have cm: "c mod 10 = c" by simp
  have 1: "a * 10 + n mod 10 = n" by (simp add: a_def)
  have 2: "b * 10 + a mod 10 = a" by (simp add: b_def)
  have 3: "c * 10 + b mod 10 = b" by (simp add: c_def)
  show ?thesis unfolding b' c' cm a_def [symmetric] 3 2 1 ..
qed

lemma mod10_digit: "0 \<le> (k::int) mod 10" "k mod 10 \<le> 9"
  by simp_all

lemma digitsVal_pad2:
  assumes "0 \<le> n" "n \<le> 99"
  shows "digitsVal 0 (pad2 n) = Some n"
proof -
  have "digitsVal 0 (pad2 n) = Some ((n div 10 mod 10) * 10 + n mod 10)"
    by (simp add: pad2_def digitVal_digitChar [OF mod10_digit])
  then show ?thesis unfolding decimal2 [OF assms] .
qed

lemma digitsVal_pad4:
  assumes "0 \<le> n" "n \<le> 9999"
  shows "digitsVal 0 (pad4 n) = Some n"
proof -
  have "digitsVal 0 (pad4 n) =
    Some ((((n div 1000 mod 10) * 10 + n div 100 mod 10) * 10 + n div 10 mod 10) * 10 + n mod 10)"
    by (simp add: pad4_def digitVal_digitChar [OF mod10_digit])
  then show ?thesis unfolding decimal4 [OF assms] .
qed

lemma DaysInMonth_le: "DaysInMonth y m \<le> 31"
  using LeapDays_cases [of y] by (auto simp: DaysInMonth_def)

lemma parseCalendarDate_isoDate:
  assumes "validDate (y, m, d)" "0 \<le> y" "y \<le> 9999"
  shows "parseCalendarDate (isoDate (y, m, d)) = Some (y, m, d)"
proof -
  have v: "1 \<le> m" "m \<le> 12" "1 \<le> d" "d \<le> DaysInMonth y m"
    using assms(1) by (simp_all add: validDate_def)
  have d: "d \<le> 99" using v(4) DaysInMonth_le [of y m] by simp
  have py: "digitsVal 0 (pad4 y) = Some y" using assms(2,3) by (rule digitsVal_pad4)
  have pm: "digitsVal 0 (pad2 m) = Some m" using v(1,2) by (intro digitsVal_pad2) simp_all
  have pd: "digitsVal 0 (pad2 d) = Some d" using v(3) d by (intro digitsVal_pad2) simp_all
  obtain y1 y2 y3 y4 where y: "pad4 y = [y1, y2, y3, y4]" by (simp add: pad4_def)
  obtain m1 m2 where m: "pad2 m = [m1, m2]" by (simp add: pad2_def)
  obtain d1 d2 where dd: "pad2 d = [d1, d2]" by (simp add: pad2_def)
  have iso: "isoDate (y, m, d) = [y1, y2, y3, y4, CHR ''-'', m1, m2, CHR ''-'', d1, d2]"
    by (simp add: isoDate_def y m dd)
  have "digitsVal 0 (take 4 (isoDate (y, m, d))) = Some y"
    using py by (simp add: iso y)
  moreover have "digitsVal 0 (take 2 (drop 5 (isoDate (y, m, d)))) = Some m"
    using pm by (simp add: iso m)
  moreover have "digitsVal 0 (drop 8 (isoDate (y, m, d))) = Some d"
    using pd by (simp add: iso dd)
  moreover have "length (isoDate (y, m, d)) = 10" "isoDate (y, m, d) ! 4 = CHR ''-''"
    "isoDate (y, m, d) ! 7 = CHR ''-''"
    by (simp_all add: iso)
  ultimately show ?thesis
    unfolding parseCalendarDate_def using v by simp
qed

lemma dayNumber_range:
  assumes "validDate (y, m, d)" "0 \<le> y" "y \<le> 9999"
  shows "- 719528 \<le> dayNumber (y, m, d)" and "dayNumber (y, m, d) \<le> 2932896"
proof -
  have v: "1 \<le> m" "m \<le> 12" "1 \<le> d" "d \<le> DaysInMonth y m"
    using assms(1) by (simp_all add: validDate_def)
  have dn: "dayNumber (y, m, d) = DayFromYear y + (FirstDayOfMonth (LeapDays y) (m - 1) + d - 1)"
    using v by (simp add: dayNumber_def MakeDay_in_year)
  note w = FirstDayOfMonth_range [OF v]
  have lo: "DayFromYear 0 \<le> DayFromYear y" using assms(2) by (rule DayFromYear_mono)
  have "DayFromYear (y + 1) \<le> DayFromYear 10000"
    using assms(3) by (intro DayFromYear_mono) simp
  then have hi: "DayFromYear y + DaysInYear y \<le> DayFromYear 10000"
    by (simp add: DayFromYear_Suc)
  have e0: "DayFromYear 0 = - 719528" by (simp add: DayFromYear_def)
  have e1: "DayFromYear 10000 = 2932897" by (simp add: DayFromYear_def)
  show "- 719528 \<le> dayNumber (y, m, d)" using lo w(1) unfolding dn e0 by simp
  show "dayNumber (y, m, d) \<le> 2932896" using hi w(2) unfolding dn e1 by simp
qed

lemma TimeClip_days:
  assumes "- 100000000 \<le> n" "n \<le> 100000000"
  shows "TimeClip (MakeDate n 0) = Some (n * msPerDay)"
  using assms by (simp add: TimeClip_def MakeDate_def msPerDay_def abs_if)

lemma newDateUTC_isoDate:
  assumes "validDate (y, m, d)" "0 \<le> y" "y \<le> 9999"
  shows "newDateUTC other (isoDate (y, m, d)) = Some (dayNumber (y, m, d) * msPerDay)"
proof -
  note r = dayNumber_range [OF assms]
  have "TimeClip (MakeDate (dayNumber (y, m, d)) 0) = Some (dayNumber (y, m, d) * msPerDay)"
    by (rule TimeClip_days) (use r in simp_all)
  then show ?thesis
    by (simp add: newDateUTC_def parseCalendarDate_isoDate [OF assms] dayNumber_def)
qed

lemma toISOString_midnight:
  assumes "validDate (y, m, d)" "0 \<le> y" "y \<le> 9999"
  shows "toISOString (Some (dayNumber (y, m, d) * msPerDay)) =
         Inr (isoDate (y, m, d) @ ''T00:00:00.000Z'')"
proof -
  have v: "1 \<le> m" "m \<le> 12" "1 \<le> d" "d \<le> DaysInMonth y m"
    using assms(1) by (simp_all add: validDate_def)
  note c = civil_of_MakeDay [OF v]
  have p0: "pad2 0 = ''00''" "pad3 0 = ''000''" by (simp_all add: pad2_def pad3_def digitChar_def char_of_def)
  show ?thesis
    using assms(2,3) 
    by (simp add: toISOString_def dayNumber_def c isoYear_def isoDate_def p0)
qed

lemma year_tomorrow: "fst x \<le> fst (tomorrow x)"
  by (cases x) (simp add: tomorrow_def)

lemma year_funpow: "fst x \<le> fst ((tomorrow ^^ n) x)"
proof (induction n)
  case 0
  then show ?case by simp
next
  case (Suc n)
  then show ?case using year_tomorrow [of "(tomorrow ^^ n) x"] by simp
qed

lemma length_isoDate: "length (isoDate x) = 10"
  by (cases x) (simp add: isoDate_def pad4_def pad2_def)

lemma nextDate_weekly_calendar:
  assumes "validDate x" "0 \<le> fst x" "fst ((tomorrow ^^ 7) x) \<le> 9999"
  shows "nextDate other (isoDate x) weekly = Inr (Some (isoDate ((tomorrow ^^ 7) x)))"
proof -
  obtain y m d where x: "x = (y, m, d)" by (cases x)
  obtain y' m' d' where x': "(tomorrow ^^ 7) (y, m, d) = (y', m', d')"
    by (cases "(tomorrow ^^ 7) (y, m, d)")
  have v: "1 \<le> m" "m \<le> 12" "1 \<le> d" "d \<le> DaysInMonth y m"
    using assms(1) by (simp_all add: x validDate_def)
  have yr: "0 \<le> y" "y \<le> 9999" "0 \<le> y'" "y' \<le> 9999"
    using assms(2,3) year_funpow [of x 7] unfolding x x' by simp_all
  have vx: "validDate (y, m, d)" using assms(1) by (simp add: x)
  have vx': "validDate (y', m', d')" and dn: "dayNumber (y', m', d') = dayNumber (y, m, d) + 7"
    using dayNumber_funpow [OF assms(1), of 7] unfolding x x' by simp_all
  define t where "t = dayNumber (y, m, d) * msPerDay"
  have d0: "newDateUTC other (isoDate (y, m, d)) = Some t"
    unfolding t_def using vx yr(1,2) by (rule newDateUTC_isoDate)
  have c: "YearFromTime t = y" "MonthFromTime t = m - 1" "DateFromTime t = d"
    unfolding t_def dayNumber_def using civil_of_MakeDay [OF v] by simp_all
  have md: "MakeDay y (m - 1) (d + 7) = dayNumber (y', m', d')"
    unfolding dn using v by (simp add: dayNumber_def MakeDay_in_year)
  have tw: "TimeWithinDay t = 0" by (simp add: t_def)
  have clip: "TimeClip (MakeDate (dayNumber (y', m', d')) 0) = Some (dayNumber (y', m', d') * msPerDay)"
    by (rule TimeClip_days) (use dayNumber_range [OF vx' yr(3,4)] in simp_all)
  have d1: "setUTCDate (Some t) (map_option (\<lambda>k. k + 7) (getUTCDate (Some t)))
            = Some (dayNumber (y', m', d') * msPerDay)"
    by (simp add: setUTCDate_def getUTCDate_def c md tw clip)
  show ?thesis
    unfolding x x'
    by (simp add: nextDate_def Let_def d0 d1 toISOString_midnight [OF vx' yr(3,4)] length_isoDate)
qed

lemma nextDate_monthly_calendar:
  assumes "validDate (y, m, d)" "0 \<le> y"
    and "followingMonth (y, m) = (y1, m1)" "followingMonth (y1, m1) = (y2, m2)"
    and "y2 \<le> 9999"
  shows "nextDate other (isoDate (y, m, d)) monthly =
         Inr (Some (isoDate (if d \<le> DaysInMonth y1 m1 then (y1, m1, d)
                             else (y2, m2, d - DaysInMonth y1 m1))))"
proof -
  have v: "1 \<le> m" "m \<le> 12" "1 \<le> d" "d \<le> DaysInMonth y m"
    using assms(1) by (simp_all add: validDate_def)
  have f1: "1 \<le> m1" "m1 \<le> 12" "y \<le> y1" "y1 \<le> y2" "1 \<le> m2" "m2 \<le> 12"
    using assms(3,4) v(1,2) by (auto simp: followingMonth_def split: if_splits)
  have yr: "y \<le> 9999" "0 \<le> y1" "y1 \<le> 9999" "0 \<le> y2"
    using f1 assms(2,5) by simp_all
  define t where "t = dayNumber (y, m, d) * msPerDay"
  have d0: "newDateUTC other (isoDate (y, m, d)) = Some t"
    unfolding t_def using assms(1,2) yr(1) by (rule newDateUTC_isoDate)
  have c: "YearFromTime t = y" "MonthFromTime t = m - 1" "DateFromTime t = d"
    unfolding t_def dayNumber_def using civil_of_MakeDay [OF v] by simp_all
  have tw: "TimeWithinDay t = 0" by (simp add: t_def)
  define r where "r = (if d \<le> DaysInMonth y1 m1 then (y1, m1, d)
                       else (y2, m2, d - DaysInMonth y1 m1))"
  have shift: "MakeDay y m d = MakeDay y1 (m1 - 1) d"
  proof (cases "m < 12")
    case True
    then show ?thesis using assms(3) by (auto simp: followingMonth_def)
  next
    case False
    then have "m = 12" using v(2) by simp
    then show ?thesis using assms(3) by (auto simp: followingMonth_def MakeDay_def)
  qed
  have dim: "28 \<le> DaysInMonth y' m'" for y' m'
    using LeapDays_cases [of y'] by (auto simp: DaysInMonth_def)
  have lin: "MakeDay y1 (m1 - 1) d = MakeDay y1 (m1 - 1) e + (d - e)" for e
    using f1(1,2) by (simp add: MakeDay_in_year)
  have vr: "validDate r" and md: "MakeDay y m d = dayNumber r"
    and ry: "0 \<le> fst r" "fst r \<le> 9999"
  proof -
    show "0 \<le> fst r" "fst r \<le> 9999" using yr assms(5) by (simp_all add: r_def)
    show "validDate r" 
      using v(3,4) f1 DaysInMonth_le [of y m] dim [of y2 m2] dim [of y1 m1]
      by (simp add: r_def validDate_def)
    show "MakeDay y m d = dayNumber r"
    proof (cases "d \<le> DaysInMonth y1 m1")
      case True
      then show ?thesis by (simp add: r_def shift dayNumber_def)
    next
      case False
      have last: "validDate (y1, m1, DaysInMonth y1 m1)"
        using f1(1,2) dim [of y1 m1] by (simp add: validDate_def)
      have tm: "tomorrow (y1, m1, DaysInMonth y1 m1) = (y2, m2, 1)"
        using assms(4) by (auto simp: tomorrow_def followingMonth_def split: if_splits)
      have "dayNumber (y2, m2, 1) = dayNumber (y1, m1, DaysInMonth y1 m1) + 1"
        using dayNumber_tomorrow(2) [OF last] unfolding tm .
      moreover have "dayNumber (y2, m2, d - DaysInMonth y1 m1)
                     = dayNumber (y2, m2, 1) + (d - DaysInMonth y1 m1 - 1)"
        using f1(5,6) by (simp add: dayNumber_def MakeDay_in_year)
      ultimately show ?thesis
        using False lin [of "DaysInMonth y1 m1"] by (simp add: r_def shift dayNumber_def)
    qed
  qed
  obtain ry rm rd where r: "r = (ry, rm, rd)" by (cases r)
  have vr': "validDate (ry, rm, rd)" "0 \<le> ry" "ry \<le> 9999" using vr ry by (simp_all add: r)
  have clip: "TimeClip (MakeDate (dayNumber r) 0) = Some (dayNumber r * msPerDay)"
    by (rule TimeClip_days) (use dayNumber_range [OF vr'] in \<open>simp_all add: r\<close>)
  have d1: "setUTCMonth (Some t) (map_option (\<lambda>k. k + 1) (getUTCMonth (Some t)))
            = Some (dayNumber r * msPerDay)"
    by (simp add: setUTCMonth_def getUTCMonth_def c md tw clip)
  have "nextDate other (isoDate (y, m, d)) monthly = Inr (Some (isoDate r))"
    by (simp add: nextDate_def Let_def d0 d1 r toISOString_midnight [OF vr'] length_isoDate)
  then show ?thesis by (simp add: r_def)
qed

section \<open>Properties of the vault balance query\<close>






section \<open>Properties of the persistence loader\<close>

lemma loadPersisted_object:
  assumes "getItem storageKey = Some raw" "raw \<noteq> []" "JSON_parse raw = Some (JObject kvs)"
  shows "loadPersisted (Some getItem) JSON_parse storageKey assetId =
         \<lparr> p_appId = numberOr (map_of kvs ''appId''),
           p_assetId = stringOr (map_of kvs ''assetId'') assetId,
           p_contractors = arrayOr (map_of kvs ''contractors''),
           p_schedules = arrayOr (map_of kvs ''schedules''),
           p_activity = arrayOr (map_of kvs ''activity''),
           p_selected = stringOr (map_of kvs ''selected'') [] \<rparr>"
  using assms by (simp add: loadPersisted_def getProp_def)

lemma numberOr_cases:
  "(v = Some (JNumber n) \<longrightarrow> numberOr v = Some n)
   \<and> ((\<forall>k. v \<noteq> Some (JNumber k)) \<longrightarrow> numberOr v = None)"
  by (auto simp: numberOr_def split: option.splits json.splits)

lemma stringOr_cases:
  "(v = Some (JString s) \<longrightarrow> stringOr v dflt = s)
   \<and> ((\<forall>t. v \<noteq> Some (JString t)) \<longrightarrow> stringOr v dflt = dflt)"
  by (auto simp: stringOr_def split: option.splits json.splits)

lemma arrayOr_cases:
  "(v = Some (JArray xs) \<longrightarrow> arrayOr v = xs)
   \<and> ((\<forall>ys. v \<noteq> Some (JArray ys)) \<longrightarrow> arrayOr v = [])"
  by (auto simp: arrayOr_def split: option.splits json.splits)

lemma loadPersisted_empty:
  "loadPersisted None JSON_parse storageKey assetId = emptyPersisted assetId"
  "getItem storageKey = None \<Longrightarrow>
     loadPersisted (Some getItem) JSON_parse storageKey assetId = emptyPersisted assetId"
  "getItem storageKey = Some [] \<Longrightarrow>
     loadPersisted (Some getItem) JSON_parse storageKey assetId = emptyPersisted assetId"
  "getItem storageKey = Some raw \<Longrightarrow> JSON_parse raw = None \<Longrightarrow>
     loadPersisted (Some getItem) JSON_parse storageKey assetId = emptyPersisted assetId"
  "getItem storageKey = Some raw \<Longrightarrow> JSON_parse raw = Some parsed \<Longrightarrow>
     (\<forall>kvs. parsed \<noteq> JObject kvs) \<Longrightarrow>
     loadPersisted (Some getItem) JSON_parse storageKey assetId = emptyPersisted assetId"
      apply (simp_all add: loadPersisted_def)
  apply (cases parsed)
  apply (simp_all add: getProp_def emptyPersisted_def numberOr_def stringOr_def arrayOr_def)
  done

text \<open>
  C6: when the stored document parses to an object, the loader decides each of the six
  fields on the stored value of that field alone: an \<^verbatim>\<open>appId\<close> that is a number, an
  \<^verbatim>\<open>assetId\<close> or \<^verbatim>\<open>selected\<close> that is a string, a \<^verbatim>\<open>contractors\<close>, \<^verbatim>\<open>schedules\<close> or
  \<^verbatim>\<open>activity\<close> that is an array is kept as stored, and a field that is missing or of
  another shape becomes its default (\<^verbatim>\<open>null\<close>, the configured asset id, the empty list,
  the empty string), whatever the other fields hold. Without a \<^verbatim>\<open>window\<close>, with no or an
  empty stored document, with a document that does not parse, and with a parsed value
  that is no object, the result is the empty default snapshot; the loader never fails.
\<close>

theorem loadPersisted_degrades_by_field:
  fixes getItem JSON_parse storageKey assetId raw kvs
  defines "loaded \<equiv> loadPersisted (Some getItem) JSON_parse storageKey assetId"
  assumes "getItem storageKey = Some raw" "raw \<noteq> []" "JSON_parse raw = Some (JObject kvs)"
  shows
    "(map_of kvs ''appId'' = Some (JNumber n) \<longrightarrow> p_appId loaded = Some n)
     \<and> ((\<forall>k. map_of kvs ''appId'' \<noteq> Some (JNumber k)) \<longrightarrow> p_appId loaded = None)
     \<and> (map_of kvs ''assetId'' = Some (JString a) \<longrightarrow> p_assetId loaded = a)
     \<and> ((\<forall>t. map_of kvs ''assetId'' \<noteq> Some (JString t)) \<longrightarrow> p_assetId loaded = assetId)
     \<and> (map_of kvs ''contractors'' = Some (JArray cs) \<longrightarrow> p_contractors loaded = cs)
     \<and> ((\<forall>ys. map_of kvs ''contractors'' \<noteq> Some (JArray ys)) \<longrightarrow> p_contractors loaded = [])
     \<and> (map_of kvs ''schedules'' = Some (JArray ss) \<longrightarrow> p_schedules loaded = ss)
     \<and> ((\<forall>ys. map_of kvs ''schedules'' \<noteq> Some (JArray ys)) \<longrightarrow> p_schedules loaded = [])
     \<and> (map_of kvs ''activity'' = Some (JArray acts) \<longrightarrow> p_activity loaded = acts)
     \<and> ((\<forall>ys. map_of kvs ''activity'' \<noteq> Some (JArray ys)) \<longrightarrow> p_activity loaded = [])
     \<and> (map_of kvs ''selected'' = Some (JString s) \<longrightarrow> p_selected loaded = s)
     \<and> ((\<forall>t. map_of kvs ''selected'' \<noteq> Some (JString t)) \<longrightarrow> p_selected loaded = [])
     \<and> loadPersisted None JSON_parse storageKey assetId = emptyPersisted assetId
     \<and> loadPersisted (Some (\<lambda>k. None)) JSON_parse storageKey assetId = emptyPersisted assetId
     \<and> loadPersisted (Some (\<lambda>k. Some [])) JSON_parse storageKey assetId = emptyPersisted assetId
     \<and> loadPersisted (Some getItem) (\<lambda>r. None) storageKey assetId = emptyPersisted assetId
     \<and> ((\<forall>obj. parsed \<noteq> JObject obj) \<longrightarrow>
          loadPersisted (Some getItem) (\<lambda>r. Some parsed) storageKey assetId
            = emptyPersisted assetId)"
proof -
  have l: "loadPersisted (Some getItem) JSON_parse storageKey assetId =
         \<lparr> p_appId = numberOr (map_of kvs ''appId''),
           p_assetId = stringOr (map_of kvs ''assetId'') assetId,
           p_contractors = arrayOr (map_of kvs ''contractors''),
           p_schedules = arrayOr (map_of kvs ''schedules''),
           p_activity = arrayOr (map_of kvs ''activity''),
           p_selected = stringOr (map_of kvs ''selected'') [] \<rparr>"
    using assms(2-4) by (rule loadPersisted_object)
  have f: "p_appId loaded = numberOr (map_of kvs ''appId'')"
    "p_assetId loaded = stringOr (map_of kvs ''assetId'') assetId"
    "p_contractors loaded = arrayOr (map_of kvs ''contractors'')"
    "p_schedules loaded = arrayOr (map_of kvs ''schedules'')"
    "p_activity loaded = arrayOr (map_of kvs ''activity'')"
    "p_selected loaded = stringOr (map_of kvs ''selected'') []"
    unfolding loaded_def l by simp_all
  have e: "loadPersisted (Some (\<lambda>k. None)) JSON_parse storageKey assetId = emptyPersisted assetId"
    "loadPersisted (Some (\<lambda>k. Some [])) JSON_parse storageKey assetId = emptyPersisted assetId"
    "loadPersisted (Some getItem) (\<lambda>r. None) storageKey assetId = emptyPersisted assetId"
    "(\<forall>obj. parsed \<noteq> JObject obj) \<longrightarrow>
          loadPersisted (Some getItem) (\<lambda>r. Some parsed) storageKey assetId
            = emptyPersisted assetId"
    using assms(2) loadPersisted_empty(5) [of getItem storageKey raw "\<lambda>r. Some parsed" parsed assetId]
    by (simp_all add: loadPersisted_empty)
  show ?thesis
    unfolding f
    using numberOr_cases [of "map_of kvs ''appId''" n]
      stringOr_cases [of "map_of kvs ''assetId''" a assetId]
      arrayOr_cases [of "map_of kvs ''contractors''" cs]
      arrayOr_cases [of "map_of kvs ''schedules''" ss]
      arrayOr_cases [of "map_of kvs ''activity''" acts]
      stringOr_cases [of "map_of kvs ''selected''" s "[]"]
      loadPersisted_empty(1) [of JSON_parse storageKey assetId] e
    by blast
qed

theorem loadPersisted_degrades_by_field_witness:
  "loadPersisted (Some (\<lambda>k. if k = ''paystream:mvp:v2:testnet'' then Some ''{...}'' else None))
     (\<lambda>r. Some storedObject) ''paystream:mvp:v2:testnet'' ''10458941''
   = \<lparr> p_appId = Some 1001, p_assetId = ''31566704'', p_contractors = [],
       p_schedules = [JNumber 1], p_activity = [], p_selected = ''c-1'' \<rparr>"
  using loadPersisted_degrades_by_field
    [of "\<lambda>k. if k = ''paystream:mvp:v2:testnet'' then Some ''{...}'' else None"
        "''paystream:mvp:v2:testnet''" "''{...}''" "\<lambda>r. Some storedObject"
        "[(''appId'', JNumber 1001), (''assetId'', JString ''31566704''),
     (''contractors'', JString ''oops''), (''schedules'', JArray [JNumber 1]),
     (''activity'', JArray []), (''selected'', JString ''c-1'')]"
        1001 "''10458941''" "''31566704''" "[]" "[JNumber 1]" "[]" "''c-1''" JNull]
  by (simp add: storedObject_def)

section \<open>Properties of the wallet request guard\<close>

lemma guardSettle_released:
  "\<not> walletRequestInFlight (snd (guardSettle (outcome, st2)))
   \<and> \<not> walletRequestBusy (snd (guardSettle (outcome, st2)))"
  by (cases outcome) (simp_all add: guardSettle_def Let_def)

text \<open>
  C4: a call of the guard made while the in-flight flag is set is rejected with the
  request-already-pending error, whatever the operation: the operation is not invoked, and
  the flag stays set. A call made while the flag is clear marks the guard in flight and
  busy and invokes the operation in that state, so that a further call made while the
  operation is pending is rejected; once the operation has settled, by returning or by
  throwing, the in-flight and busy flags are clear, and the next call is accepted.
\<close>

theorem runWalletTx_guard:
  "(walletRequestInFlight st \<longrightarrow>
      runWalletTx fn st = (Inl pendingError, st\<lparr> walletPendingError := True \<rparr>))
   \<and> (\<not> walletRequestInFlight st \<longrightarrow>
      runWalletTx fn st = guardSettle (fn (guardAcquire st))
      \<and> walletRequestInFlight (guardAcquire st) \<and> walletRequestBusy (guardAcquire st)
      \<and> runWalletTx fn' (guardAcquire st)
          = (Inl pendingError, (guardAcquire st)\<lparr> walletPendingError := True \<rparr>)
      \<and> \<not> walletRequestInFlight (snd (runWalletTx fn st))
      \<and> \<not> walletRequestBusy (snd (runWalletTx fn st))
      \<and> runWalletTx fn' (snd (runWalletTx fn st))
          = guardSettle (fn' (guardAcquire (snd (runWalletTx fn st)))))
   \<and> \<not> walletRequestInFlight (snd (guardSettle (outcome, st2)))
   \<and> \<not> walletRequestBusy (snd (guardSettle (outcome, st2)))"
proof (intro conjI impI)
  show "runWalletTx fn st = (Inl pendingError, st\<lparr> walletPendingError := True \<rparr>)"
    if "walletRequestInFlight st"
    using that by (simp add: runWalletTx_def)
  show "\<not> walletRequestInFlight (snd (guardSettle (outcome, st2)))"
    "\<not> walletRequestBusy (snd (guardSettle (outcome, st2)))"
    using guardSettle_released by blast+
next
  assume free: "\<not> walletRequestInFlight st"
  show run: "runWalletTx fn st = guardSettle (fn (guardAcquire st))"
    using free by (simp add: runWalletTx_def)
  show "walletRequestInFlight (guardAcquire st)" "walletRequestBusy (guardAcquire st)"
    by (simp_all add: guardAcquire_def)
  show "runWalletTx fn' (guardAcquire st)
          = (Inl pendingError, (guardAcquire st)\<lparr> walletPendingError := True \<rparr>)"
    by (simp add: runWalletTx_def guardAcquire_def)
  obtain outcome' st' where f: "fn (guardAcquire st) = (outcome', st')"
    by (cases "fn (guardAcquire st)")
  show rel: "\<not> walletRequestInFlight (snd (runWalletTx fn st))"
    unfolding run f using guardSettle_released by blast
  show "\<not> walletRequestBusy (snd (runWalletTx fn st))"
    unfolding run f using guardSettle_released by blast
  show "runWalletTx fn' (snd (runWalletTx fn st))
          = guardSettle (fn' (guardAcquire (snd (runWalletTx fn st))))"
    using rel by (simp add: runWalletTx_def)
qed

lemma pendingError_not_classified:
  "isPendingWalletRequestError (err pendingError) = False"
  by code_simp

lemma network_down_not_classified:
  "isPendingWalletRequestError ''network down'' = False"
  by code_simp

theorem runWalletTx_guard_witness:
  "\<not> walletRequestInFlight idle
   \<and> runWalletTx (\<lambda>s. runWalletTx (\<lambda>t. (Inr (7::nat), t)) s) idle
      = (Inl pendingError, idle\<lparr> walletPendingError := True \<rparr>)
   \<and> runWalletTx (\<lambda>s. (Inl (Error ''network down''), s)) idle
      = (Inl (Error ''network down''), idle)
   \<and> runWalletTx (\<lambda>t. (Inr (7::nat), t))
        (snd (runWalletTx (\<lambda>s. (Inl (Error ''network down'') :: error + nat, s)) idle))
      = (Inr 7, idle)"
  using runWalletTx_guard [of idle "\<lambda>s. runWalletTx (\<lambda>t. (Inr (7::nat), t)) s"
      "\<lambda>t. (Inr (7::nat), t)" "Inl (Error ''network down'')" idle]
  by (simp add: idle_def runWalletTx_def guardAcquire_def guardSettle_def
      pendingError_not_classified network_down_not_classified)

section \<open>Properties of the payout\<close>

lemma refresh_keeps:
  "contractors (snd (refresh v fenv target st)) = contractors st"
  "schedules (snd (refresh v fenv target st)) = schedules st"
  "activity (snd (refresh v fenv target st)) = activity st"
  "payoutCalls (snd (refresh v fenv target st)) = payoutCalls st"
  "renderFailed (snd (refresh v fenv target st)) = renderFailed st"
  "snackbar (snd (refresh v fenv target st)) = snackbar st"
  by (simp_all add: refresh_def Let_def split: sum.splits)

lemma payoutOperation_keeps:
  "contractors (snd (payoutOperation v env c amount st)) = contractors st"
  "schedules (snd (payoutOperation v env c amount st)) = schedules st"
  "activity (snd (payoutOperation v env c amount st)) = activity st"
  "renderFailed (snd (payoutOperation v env c amount st)) = renderFailed st"
  "snackbar (snd (payoutOperation v env c amount st)) = snackbar st"
  by (simp_all add: payoutOperation_def split: sum.splits)

lemma guardSettle_keeps:
  "contractors (snd (guardSettle (outcome, st))) = contractors st"
  "schedules (snd (guardSettle (outcome, st))) = schedules st"
  "activity (snd (guardSettle (outcome, st))) = activity st"
  "renderFailed (snd (guardSettle (outcome, st))) = renderFailed st"
  "payoutCalls (snd (guardSettle (outcome, st))) = payoutCalls st"
  "snackbar (snd (guardSettle (outcome, st))) = snackbar st"
  by (simp_all add: guardSettle_def Let_def split: sum.splits)

lemma runWalletTx_payout_keeps:
  fixes st1 :: State and v env c amount
  defines "st2 \<equiv> snd (runWalletTx (payoutOperation v env c amount) st1)"
  shows "contractors st2 = contractors st1" "schedules st2 = schedules st1"
    "activity st2 = activity st1" "renderFailed st2 = renderFailed st1"
    "snackbar st2 = snackbar st1"
proof -
  obtain outcome st' where p: "payoutOperation v env c amount (guardAcquire st1) = (outcome, st')"
    by (cases "payoutOperation v env c amount (guardAcquire st1)")
  have k: "contractors st' = contractors st1" "schedules st' = schedules st1"
     "activity st' = activity st1" "renderFailed st' = renderFailed st1" 
     "snackbar st' = snackbar st1"
    using payoutOperation_keeps [of v env c amount "guardAcquire st1"] unfolding p
    by (simp_all add: guardAcquire_def)
  show "contractors st2 = contractors st1" "schedules st2 = schedules st1"
    "activity st2 = activity st1" "renderFailed st2 = renderFailed st1"
    "snackbar st2 = snackbar st1"
    unfolding st2_def by (simp_all add: runWalletTx_def p guardSettle_keeps k)
qed

lemma executePayment_checked:
  assumes "readyToPay v"
    and "find (\<lambda>c. c_id c = cid) (v_contractors v) = Some contractor"
    and "getVaultUsdcBalance (v_parsedAsset v) (e_accountInfo env) = Inr available"
  shows "executePayment v env cid amount mode sid st =
    (if amount > available then (Inl (insufficientVault v available amount), st)
     else
       (case isAddressOptedInToAsset (v_parsedAsset v) (e_assetInfo env) of
          Inl e \<Rightarrow> (Inl e, st)
        | Inr optedIn \<Rightarrow>
            if \<not> optedIn then (Inl (mustOptIn v), st)
            else
              (case runWalletTx (payoutOperation v env contractor amount)
                      (st\<lparr> loading := ''payment'' \<rparr>) of
                 (Inl e, st2) \<Rightarrow> (Inl e, st2)
               | (Inr result, st2) \<Rightarrow>
                   recordPayment v env cid amount mode sid
                     (quoteFor amount (if mode = auto_swap then c_preferred contractor else USDC)
                        (e_now env))
                     result st2)))"
  using assms
  by (simp add: executePayment_def readyToPay_def insufficientVault_def mustOptIn_def Let_def
      split: sum.splits prod.splits)

lemma executePayment_unchecked:
  assumes "\<not> readyToPay v \<or> find (\<lambda>c. c_id c = cid) (v_contractors v) = None
    \<or> (\<exists>e. getVaultUsdcBalance (v_parsedAsset v) (e_accountInfo env) = Inl e)"
  shows "\<exists>e. executePayment v env cid amount mode sid st = (Inl e, st)"
  using assms
  by (auto simp: executePayment_def readyToPay_def split: option.splits)

lemma ex_readyToPay: "readyToPay exView"
  by (simp add: readyToPay_def exView_def truthyAppId_def truthyString_def validAsset_def
      isInteger_def)

lemma ex_find_alice: "find (\<lambda>c. c_id c = ''c-alice'') (v_contractors exView) = Some alice"
  by (simp add: exView_def exState_def alice_def)

lemma ex_available:
  "getVaultUsdcBalance (v_parsedAsset exView) (e_accountInfo exEnv) = Inr 5000000"
  "getVaultUsdcBalance (v_parsedAsset exView) (f_accountInfo exRefresh) = Inr 5000000"
  by (simp_all add: exView_def exEnv_def exRefresh_def exInfo_def getVaultUsdcBalance_def 
      BigInt_of_number_def BigInt_of_def isInteger_def holding_def assetIdValue_def noAmount_def
      MAX_SAFE_INTEGER_def)

lemma ex_optedIn:
  "isAddressOptedInToAsset (v_parsedAsset exView) None = Inr True"
  "isAddressOptedInToAsset (v_parsedAsset exView) (Some notOptedIn) = Inr False"
  by code_simp+

text \<open>
  C3: in a payout whose wallet, vault, asset id and contractor checks pass and whose vault
  query answers with the balance \<open>available\<close> (the balance read from the node for this
  payout, not the displayed one): when the amount exceeds \<open>available\<close> the payout fails
  with the insufficient-vault-balance error; when the amount is covered and the opt-in
  query finds no opt-in, it fails with the opt-in error, a different one; in both cases
  the state is the one before the call, no payout call included. A payout call is made
  only when the amount is covered and the contractor has opted in.
\<close>

theorem executePayment_preconditions:
  assumes "readyToPay v"
    and "find (\<lambda>c. c_id c = cid) (v_contractors v) = Some contractor"
    and "getVaultUsdcBalance (v_parsedAsset v) (e_accountInfo env) = Inr available"
  shows
    "(amount > available \<longrightarrow>
        executePayment v env cid amount mode sid st
          = (Inl (insufficientVault v available amount), st))
     \<and> (amount \<le> available
          \<and> isAddressOptedInToAsset (v_parsedAsset v) (e_assetInfo env) = Inr False \<longrightarrow>
        executePayment v env cid amount mode sid st = (Inl (mustOptIn v), st))
     \<and> (payoutCalls (snd (executePayment v env cid amount mode sid st)) \<noteq> payoutCalls st \<longrightarrow>
        amount \<le> available
        \<and> isAddressOptedInToAsset (v_parsedAsset v) (e_assetInfo env) = Inr True)
     \<and> insufficientVault v available amount \<noteq> mustOptIn v"
proof (intro conjI impI)
  note unfold = executePayment_checked [OF assms, of amount mode sid st]
  show "executePayment v env cid amount mode sid st
          = (Inl (insufficientVault v available amount), st)" if "amount > available"
    using that by (simp add: unfold)
  show "executePayment v env cid amount mode sid st = (Inl (mustOptIn v), st)"
    if "amount \<le> available
          \<and> isAddressOptedInToAsset (v_parsedAsset v) (e_assetInfo env) = Inr False"
    using that by (simp add: unfold)
  show "insufficientVault v available amount \<noteq> mustOptIn v"
    by (simp add: insufficientVault_def mustOptIn_def)
  assume sent: "payoutCalls (snd (executePayment v env cid amount mode sid st)) \<noteq> payoutCalls st"
  show "amount \<le> available"
  proof (rule ccontr)
    assume "\<not> amount \<le> available"
    then show False using sent by (simp add: unfold)
  qed
  show "isAddressOptedInToAsset (v_parsedAsset v) (e_assetInfo env) = Inr True"
  proof (cases "isAddressOptedInToAsset (v_parsedAsset v) (e_assetInfo env)")
    case (Inl e)
    have "executePayment v env cid amount mode sid st
            = (if amount > available then (Inl (insufficientVault v available amount), st)
               else (Inl e, st))"
      by (simp add: unfold Inl)
    then show ?thesis using sent by (simp split: if_splits)
  next
    case (Inr optedIn)
    show ?thesis
    proof (cases optedIn)
      case True
      then show ?thesis using Inr by simp
    next
      case False
      have "executePayment v env cid amount mode sid st
            = (if amount > available then (Inl (insufficientVault v available amount), st)
               else (Inl (mustOptIn v), st))"
        by (simp add: unfold Inr False)
      then show ?thesis using sent by (simp split: if_splits)
    qed
  qed
qed

theorem executePayment_preconditions_witness:
  "executePayment exView exEnv ''c-alice'' 6000000 auto_swap None exState
     = (Inl (insufficientVault exView 5000000 6000000), exState)
   \<and> executePayment exView (exEnv\<lparr> e_assetInfo := Some notOptedIn \<rparr>) ''c-alice'' 5000000
        auto_swap None exState
     = (Inl (mustOptIn exView), exState)"
  using executePayment_preconditions [OF ex_readyToPay ex_find_alice ex_available(1),
      of 6000000 auto_swap None exState]
    executePayment_preconditions [OF ex_readyToPay ex_find_alice,
      of "exEnv\<lparr> e_assetInfo := Some notOptedIn \<rparr>" 5000000 5000000 auto_swap None exState]
    ex_available(1) ex_optedIn(2)
  by (simp add: exEnv_def)

lemma recordPayment_contractors:
  "contractors (snd (recordPayment v env cid amount mode sid q result st))
     = map (creditContractor cid mode amount q) (contractors st)"
  by (simp add: recordPayment_def Let_def refresh_keeps split: option.splits sum.splits)

lemma recordPayment_activity:
  "activity (snd (recordPayment v env cid amount mode sid q result st))
     = \<lparr> a_id = e_makeId env, a_kind = payment, a_at = e_at env,
         a_contractorId = Some cid,
         a_txId = (if r_txIds result \<noteq> [] then Some (last (r_txIds result)) else None),
         a_round = r_confirmedRound result, a_usdc = Some amount,
         a_currency = Some (q_currency q), a_output = Some (q_output q),
         a_note = ''Employer payout executed'' \<rparr> # activity st"
  by (simp add: recordPayment_def Let_def refresh_keeps split: option.splits sum.splits)

lemma executePayment_success:
  assumes "executePayment v env cid amount mode sid st = (Inr u, st')"
  obtains contractor available result st2 where
    "readyToPay v"
    "find (\<lambda>c. c_id c = cid) (v_contractors v) = Some contractor"
    "getVaultUsdcBalance (v_parsedAsset v) (e_accountInfo env) = Inr available"
    "amount \<le> available"
    "isAddressOptedInToAsset (v_parsedAsset v) (e_assetInfo env) = Inr True"
    "runWalletTx (payoutOperation v env contractor amount) (st\<lparr> loading := ''payment'' \<rparr>)
       = (Inr result, st2)"
    "recordPayment v env cid amount mode sid
       (quoteFor amount (if mode = auto_swap then c_preferred contractor else USDC) (e_now env))
       result st2 = (Inr u, st')"
proof -
  have "\<not> (\<not> readyToPay v \<or> find (\<lambda>c. c_id c = cid) (v_contractors v) = None
    \<or> (\<exists>e. getVaultUsdcBalance (v_parsedAsset v) (e_accountInfo env) = Inl e))"
  proof
    assume "\<not> readyToPay v \<or> find (\<lambda>c. c_id c = cid) (v_contractors v) = None
      \<or> (\<exists>e. getVaultUsdcBalance (v_parsedAsset v) (e_accountInfo env) = Inl e)"
    then obtain e where "executePayment v env cid amount mode sid st = (Inl e, st)"
      using executePayment_unchecked by blast
    then show False using assms by simp
  qed
  then obtain contractor available where
    c: "readyToPay v" "find (\<lambda>c. c_id c = cid) (v_contractors v) = Some contractor"
      "getVaultUsdcBalance (v_parsedAsset v) (e_accountInfo env) = Inr available"
    by (cases "getVaultUsdcBalance (v_parsedAsset v) (e_accountInfo env)") auto
  note unfold = executePayment_checked [OF c, of amount mode sid st]
  have le: "amount \<le> available"
    using assms unfolding unfold by (auto split: if_splits)
  have opt: "isAddressOptedInToAsset (v_parsedAsset v) (e_assetInfo env) = Inr True"
    using assms le unfolding unfold by (auto split: if_splits sum.splits)
  obtain outcome st2 where
    run: "runWalletTx (payoutOperation v env contractor amount) (st\<lparr> loading := ''payment'' \<rparr>)
       = (outcome, st2)"
    by (cases "runWalletTx (payoutOperation v env contractor amount)
                 (st\<lparr> loading := ''payment'' \<rparr>)")
  have "\<exists>result. outcome = Inr result \<and> recordPayment v env cid amount mode sid
       (quoteFor amount (if mode = auto_swap then c_preferred contractor else USDC) (e_now env))
       result st2 = (Inr u, st')"
    using assms le unfolding unfold opt run by (cases outcome) auto
  then show thesis using that c le opt run by blast
qed

lemma recordPayment_payoutCalls:
  "payoutCalls (snd (recordPayment v env cid amount mode sid q result st)) = payoutCalls st"
  by (simp add: recordPayment_def Let_def refresh_keeps split: option.splits sum.splits)

lemma payoutOperation_cases:
  "(\<exists>e. payoutOperation v env c amount st = (Inl e, st))
   \<or> (\<exists>call. payoutOperation v env c amount st
                = (e_payout env, st\<lparr> payoutCalls := payoutCalls st @ [call] \<rparr>))"
  by (auto simp: payoutOperation_def split: sum.splits)

lemma executePayment_paid:
  assumes "payoutCalls (snd (executePayment v env cid amount mode sid st)) \<noteq> payoutCalls st"
    and "e_payout env = Inr result"
  obtains contractor st2 where
    "find (\<lambda>c. c_id c = cid) (v_contractors v) = Some contractor"
    "runWalletTx (payoutOperation v env contractor amount) (st\<lparr> loading := ''payment'' \<rparr>)
       = (Inr result, st2)"
    "executePayment v env cid amount mode sid st =
       recordPayment v env cid amount mode sid
         (quoteFor amount (if mode = auto_swap then c_preferred contractor else USDC) (e_now env))
         result st2"
proof -
  have "\<not> (\<not> readyToPay v \<or> find (\<lambda>c. c_id c = cid) (v_contractors v) = None
    \<or> (\<exists>e. getVaultUsdcBalance (v_parsedAsset v) (e_accountInfo env) = Inl e))"
  proof
    assume "\<not> readyToPay v \<or> find (\<lambda>c. c_id c = cid) (v_contractors v) = None
      \<or> (\<exists>e. getVaultUsdcBalance (v_parsedAsset v) (e_accountInfo env) = Inl e)"
    then obtain e where "executePayment v env cid amount mode sid st = (Inl e, st)"
      using executePayment_unchecked by blast
    then show False using assms(1) by simp
  qed
  then obtain contractor available where
    c: "readyToPay v" "find (\<lambda>c. c_id c = cid) (v_contractors v) = Some contractor"
      "getVaultUsdcBalance (v_parsedAsset v) (e_accountInfo env) = Inr available"
    by (cases "getVaultUsdcBalance (v_parsedAsset v) (e_accountInfo env)") auto
  note unfold = executePayment_checked [OF c, of amount mode sid st]
  have le: "\<not> amount > available"
    using assms(1) unfolding unfold by (auto split: if_splits)
  have opt: "isAddressOptedInToAsset (v_parsedAsset v) (e_assetInfo env) = Inr True"
    using assms(1) le unfolding unfold by (auto split: if_splits sum.splits)
  define st1 where "st1 = st\<lparr> loading := ''payment'' \<rparr>"
  have p1: "payoutCalls st1 = payoutCalls st" by (simp add: st1_def)
  obtain outcome st2 where
    run: "runWalletTx (payoutOperation v env contractor amount) st1 = (outcome, st2)"
    by (cases "runWalletTx (payoutOperation v env contractor amount) st1")
  have e: "executePayment v env cid amount mode sid st =
      (case outcome of Inl e \<Rightarrow> (Inl e, st2)
       | Inr r \<Rightarrow> recordPayment v env cid amount mode sid
           (quoteFor amount (if mode = auto_swap then c_preferred contractor else USDC) (e_now env))
           r st2)"
    using le unfolding unfold opt st1_def [symmetric] run by (simp split: sum.splits)
  have sent: "payoutCalls st2 \<noteq> payoutCalls st"
    using assms(1) unfolding e by (cases outcome) (simp_all add: recordPayment_payoutCalls)
  have free: "\<not> walletRequestInFlight st1"
  proof
    assume "walletRequestInFlight st1"
    then have "st2 = st1\<lparr> walletPendingError := True \<rparr>"
      using run by (simp add: runWalletTx_def)
    then show False using sent p1 by simp
  qed
  have settle: "guardSettle (payoutOperation v env contractor amount (guardAcquire st1))
                = (outcome, st2)"
    using run free by (simp add: runWalletTx_def)
  have pg: "payoutCalls (guardAcquire st1) = payoutCalls st"
    by (simp add: guardAcquire_def p1)
  from payoutOperation_cases [of v env contractor amount "guardAcquire st1"]
  have "outcome = Inr result"
  proof
    assume "\<exists>e. payoutOperation v env contractor amount (guardAcquire st1)
               = (Inl e, guardAcquire st1)"
    then obtain e where
      "payoutOperation v env contractor amount (guardAcquire st1) = (Inl e, guardAcquire st1)"
      by blast
    then have "payoutCalls st2 = payoutCalls st"
      using settle guardSettle_keeps(5) [of "Inl e :: error + PayoutResult" "guardAcquire st1"] pg
      by simp
    then show ?thesis using sent by simp
  next
    assume "\<exists>call. payoutOperation v env contractor amount (guardAcquire st1)
                = (e_payout env,
                   (guardAcquire st1)\<lparr> payoutCalls := payoutCalls (guardAcquire st1) @ [call] \<rparr>)"
    then obtain call where
      "payoutOperation v env contractor amount (guardAcquire st1)
         = (Inr result,
            (guardAcquire st1)\<lparr> payoutCalls := payoutCalls (guardAcquire st1) @ [call] \<rparr>)"
      using assms(2) by auto
    then show ?thesis using settle by (simp add: guardSettle_def)
  qed
  then show thesis
    using that [of contractor st2] c(2) run e unfolding st1_def by simp
qed

lemma executePayment_returns_paid:
  assumes "fst (executePayment v env cid amount mode sid st) = Inr ()"
  shows "payoutCalls (snd (executePayment v env cid amount mode sid st)) \<noteq> payoutCalls st
         \<and> (\<exists>result. e_payout env = Inr result)"
proof -
  have run0: "executePayment v env cid amount mode sid st
     = (Inr (), snd (executePayment v env cid amount mode sid st))"
    using assms by (simp add: prod_eq_iff)
  from run0 obtain contractor and available :: rat and result st2 where
    run: "runWalletTx (payoutOperation v env contractor amount)
                (st\<lparr> loading := ''payment'' \<rparr>) = (Inr result, st2)"
    and rec: "recordPayment v env cid amount mode sid
       (quoteFor amount (if mode = auto_swap then c_preferred contractor else USDC) (e_now env))
       result st2 = (Inr (), snd (executePayment v env cid amount mode sid st))"
    by (rule executePayment_success)
  define st1 where "st1 = st\<lparr> loading := ''payment'' \<rparr>"
  have free: "\<not> walletRequestInFlight st1"
    using run unfolding st1_def [symmetric] by (auto simp: runWalletTx_def split: if_splits)
  have settle: "guardSettle (payoutOperation v env contractor amount (guardAcquire st1))
                = (Inr result, st2)"
    using run free unfolding st1_def [symmetric] by (simp add: runWalletTx_def)
  obtain outcome st' where
    p: "payoutOperation v env contractor amount (guardAcquire st1) = (outcome, st')"
    by (cases "payoutOperation v env contractor amount (guardAcquire st1)")
  have o: "outcome = Inr result"
    using settle unfolding p by (cases outcome) (auto simp: guardSettle_def Let_def split: if_splits)
  have k: "payoutCalls st2 = payoutCalls st'"
    using settle guardSettle_keeps(5) [of outcome st'] unfolding p by simp
  from payoutOperation_cases [of v env contractor amount "guardAcquire st1"]
  have "payoutCalls st' \<noteq> payoutCalls st \<and> e_payout env = Inr result"
    unfolding p o by (auto simp: guardAcquire_def st1_def)
  then show ?thesis
    using recordPayment_payoutCalls [of v env cid amount mode sid _ result st2] rec k
    by (metis snd_conv)
qed

lemma ex_pay_bob:
  "fst (executePayment exView exEnv ''c-bob'' 2000000 auto_swap None exState) = Inr ()"
  "contractors (snd (executePayment exView exEnv ''c-bob'' 2000000 auto_swap None exState))
     = [alice, bob\<lparr> c_usdc := 2000000, c_assetOptedIn := Some True \<rparr>]"
  by code_simp+

lemma ex_pay_alice:
  "fst (executePayment exView exEnv ''c-alice'' 2000000 auto_swap None exState) = Inr ()"
  by code_simp

lemma ex_pay_alice_refresh_down:
  "fst (executePayment exView refreshDown ''c-alice'' 2000000 usd_hold None exState)
     = Inl (Error ''indexer down'')"
  "payoutCalls (snd (executePayment exView refreshDown ''c-alice'' 2000000 usd_hold None exState))
     \<noteq> payoutCalls exState"
  "\<exists>result. e_payout refreshDown = Inr result"
  apply code_simp
  apply code_simp
  apply (simp add: refreshDown_def exEnv_def)
  done

text \<open>
  C2 (as stated in the specification, refuted): in auto-convert mode the output of the
  quote would be added to the local-currency balance of the contractor. Bob prefers the
  native currency: his payout of 2000000 micro-units in auto-convert mode succeeds, his
  asset balance grows by the amount, and his local-currency balance is not changed,
  although the quote's output is 2.
\<close>

theorem executePayment_auto_swap_native_counterexample:
  "fst (executePayment exView exEnv ''c-bob'' 2000000 auto_swap None exState) = Inr ()
   \<and> c_preferred bob = USDC
   \<and> contractors (snd (executePayment exView exEnv ''c-bob'' 2000000 auto_swap None exState))
       = [alice, bob\<lparr> c_usdc := c_usdc bob + 2000000, c_assetOptedIn := Some True \<rparr>]
   \<and> c_local (bob\<lparr> c_usdc := c_usdc bob + 2000000, c_assetOptedIn := Some True \<rparr>)
       \<noteq> c_local bob + q_output (quoteFor 2000000 (c_preferred bob) (e_now exEnv))"
  using ex_pay_bob by (simp add: bob_def quoteFor_def SCALE_def Let_def)

text \<open>
  C2 (amended): a payout is successful when the payout call was sent and resolved; every
  call of \<^verbatim>\<open>executePayment\<close> that returns is one, and so is one whose closing refresh
  fails. After a successful payout, direct or replayed from a schedule, the contractors of
  the state are the former ones, each with the given id changed as follows and the others
  as they were: in auto-convert mode, when the preferred currency is not the native one,
  the output of the quote in the preferred currency is added to the local-currency
  balance; in hold-in-asset mode, and in auto-convert mode when the preferred currency is
  the native one, the amount is added to the asset balance; in both cases the contractor is
  marked opted-in. Exactly one activity record is added, at the head of the list, of kind
  \<^verbatim>\<open>payment\<close>, with the amount and the quote's currency and output.
\<close>

theorem executePayment_credits_contractor:
  "(fst (executePayment v env cid amount mode sid st) = Inr () \<longrightarrow>
      payoutCalls (snd (executePayment v env cid amount mode sid st)) \<noteq> payoutCalls st
      \<and> (\<exists>result. e_payout env = Inr result))
   \<and> (payoutCalls (snd (executePayment v env cid amount mode sid st)) \<noteq> payoutCalls st
       \<and> (\<exists>result. e_payout env = Inr result) \<longrightarrow>
      (\<exists>contractor entry.
        find (\<lambda>c. c_id c = cid) (v_contractors v) = Some contractor
        \<and> contractors (snd (executePayment v env cid amount mode sid st)) =
            map (\<lambda>c. if c_id c \<noteq> cid then c
                     else if mode = auto_swap \<and> c_preferred c \<noteq> USDC then
                       c\<lparr> c_local := c_local c
                            + q_output (quoteFor amount (c_preferred contractor) (e_now env)),
                          c_assetOptedIn := Some True \<rparr>
                     else c\<lparr> c_usdc := c_usdc c + amount, c_assetOptedIn := Some True \<rparr>)
              (contractors st)
        \<and> activity (snd (executePayment v env cid amount mode sid st)) = entry # activity st
        \<and> a_kind entry = payment \<and> a_contractorId entry = Some cid
        \<and> a_usdc entry = Some amount
        \<and> a_currency entry = Some (if mode = auto_swap then c_preferred contractor else USDC)
        \<and> a_output entry
            = Some (q_output (quoteFor amount
                      (if mode = auto_swap then c_preferred contractor else USDC) (e_now env)))))"
proof (rule conjI; rule impI)
  assume "fst (executePayment v env cid amount mode sid st) = Inr ()"
  then show "payoutCalls (snd (executePayment v env cid amount mode sid st)) \<noteq> payoutCalls st
      \<and> (\<exists>result. e_payout env = Inr result)"
    by (rule executePayment_returns_paid)
next
  assume paid: "payoutCalls (snd (executePayment v env cid amount mode sid st)) \<noteq> payoutCalls st
       \<and> (\<exists>result. e_payout env = Inr result)"
  then obtain result where res: "e_payout env = Inr result" by blast
  from paid res obtain contractor st2 where
    f: "find (\<lambda>c. c_id c = cid) (v_contractors v) = Some contractor"
    and run: "runWalletTx (payoutOperation v env contractor amount)
                (st\<lparr> loading := ''payment'' \<rparr>) = (Inr result, st2)"
    and rec: "executePayment v env cid amount mode sid st =
       recordPayment v env cid amount mode sid
         (quoteFor amount (if mode = auto_swap then c_preferred contractor else USDC) (e_now env))
         result st2"
    using executePayment_paid [of v env cid amount mode sid st result] by blast
  define q where
    "q = quoteFor amount (if mode = auto_swap then c_preferred contractor else USDC) (e_now env)"
  have k: "contractors st2 = contractors st" "activity st2 = activity st"
    using runWalletTx_payout_keeps(1,3)
      [of v env contractor amount "st\<lparr> loading := ''payment'' \<rparr>"]
    unfolding run by simp_all
  have c: "contractors (snd (executePayment v env cid amount mode sid st))
           = map (creditContractor cid mode amount q) (contractors st)"
    using recordPayment_contractors [of v env cid amount mode sid q result st2]
    unfolding q_def rec k by simp
  have cr: "creditContractor cid mode amount q =
          (\<lambda>c. if c_id c \<noteq> cid then c
                   else if mode = auto_swap \<and> c_preferred c \<noteq> USDC then
                     c\<lparr> c_local := c_local c
                          + q_output (quoteFor amount (c_preferred contractor) (e_now env)),
                        c_assetOptedIn := Some True \<rparr>
                   else c\<lparr> c_usdc := c_usdc c + amount, c_assetOptedIn := Some True \<rparr>)"
    by (rule ext) (simp add: creditContractor_def q_def)
  define entry where "entry = \<lparr> a_id = e_makeId env, a_kind = payment, a_at = e_at env,
         a_contractorId = Some cid,
         a_txId = (if r_txIds result \<noteq> [] then Some (last (r_txIds result)) else None),
         a_round = r_confirmedRound result, a_usdc = Some amount,
         a_currency = Some (q_currency q), a_output = Some (q_output q),
         a_note = ''Employer payout executed'' \<rparr>"
  have a: "activity (snd (executePayment v env cid amount mode sid st)) = entry # activity st"
    using recordPayment_activity [of v env cid amount mode sid q result st2]
    unfolding q_def rec k entry_def by simp
  have qc: "q_currency q = (if mode = auto_swap then c_preferred contractor else USDC)"
    by (simp add: q_def quoteFor_def Let_def)
  show "\<exists>contractor entry.
        find (\<lambda>c. c_id c = cid) (v_contractors v) = Some contractor
        \<and> contractors (snd (executePayment v env cid amount mode sid st)) =
            map (\<lambda>c. if c_id c \<noteq> cid then c
                     else if mode = auto_swap \<and> c_preferred c \<noteq> USDC then
                       c\<lparr> c_local := c_local c
                            + q_output (quoteFor amount (c_preferred contractor) (e_now env)),
                          c_assetOptedIn := Some True \<rparr>
                     else c\<lparr> c_usdc := c_usdc c + amount, c_assetOptedIn := Some True \<rparr>)
              (contractors st)
        \<and> activity (snd (executePayment v env cid amount mode sid st)) = entry # activity st
        \<and> a_kind entry = payment \<and> a_contractorId entry = Some cid
        \<and> a_usdc entry = Some amount
        \<and> a_currency entry = Some (if mode = auto_swap then c_preferred contractor else USDC)
        \<and> a_output entry
            = Some (q_output (quoteFor amount
                      (if mode = auto_swap then c_preferred contractor else USDC) (e_now env)))"
  proof (intro exI [of _ contractor] exI [of _ entry] conjI)
    show "find (\<lambda>c. c_id c = cid) (v_contractors v) = Some contractor" by (rule f)
    show "contractors (snd (executePayment v env cid amount mode sid st)) =
          map (\<lambda>c. if c_id c \<noteq> cid then c
                   else if mode = auto_swap \<and> c_preferred c \<noteq> USDC then
                     c\<lparr> c_local := c_local c
                          + q_output (quoteFor amount (c_preferred contractor) (e_now env)),
                        c_assetOptedIn := Some True \<rparr>
                   else c\<lparr> c_usdc := c_usdc c + amount, c_assetOptedIn := Some True \<rparr>)
            (contractors st)"
      using c unfolding cr .
    show "activity (snd (executePayment v env cid amount mode sid st)) = entry # activity st"
      by (rule a)
    show "a_kind entry = payment" "a_contractorId entry = Some cid"
      "a_usdc entry = Some amount"
      by (simp_all add: entry_def)
    show "a_currency entry = Some (if mode = auto_swap then c_preferred contractor else USDC)"
      by (simp add: entry_def qc)
    show "a_output entry
          = Some (q_output (quoteFor amount
                    (if mode = auto_swap then c_preferred contractor else USDC) (e_now env)))"
      by (simp add: entry_def q_def)
  qed
qed

theorem executePayment_credits_contractor_witness:
  "fst (executePayment exView exEnv ''c-alice'' 2000000 auto_swap None exState) = Inr ()
   \<and> contractors (snd (executePayment exView exEnv ''c-alice'' 2000000 auto_swap None exState))
       = [alice\<lparr> c_local := c_local alice + 33.83, c_assetOptedIn := Some True \<rparr>, bob]
   \<and> a_kind (hd (activity
         (snd (executePayment exView exEnv ''c-alice'' 2000000 auto_swap None exState))))
       = payment
   \<and> fst (executePayment exView refreshDown ''c-alice'' 2000000 usd_hold None exState)
       = Inl (Error ''indexer down'')
   \<and> contractors (snd (executePayment exView refreshDown ''c-alice'' 2000000 usd_hold None
         exState))
       = [alice\<lparr> c_usdc := c_usdc alice + 2000000, c_assetOptedIn := Some True \<rparr>, bob]"
proof -
  have q: "q_output (quoteFor 2000000 (c_preferred alice) (e_now exEnv)) = 33.83"
    by (simp add: alice_def quoteFor_def SCALE_def Let_def)
  have cs: "contractors exState = [alice, bob]" by (simp add: exState_def)
  note t = executePayment_credits_contractor
    [of exView exEnv "''c-alice''" 2000000 auto_swap None exState]
  from t ex_pay_alice obtain contractor entry where
    f: "find (\<lambda>c. c_id c = ''c-alice'') (v_contractors exView) = Some contractor"
    and c: "contractors (snd (executePayment exView exEnv ''c-alice'' 2000000 auto_swap None
              exState)) =
          map (\<lambda>c. if c_id c \<noteq> ''c-alice'' then c
                   else if auto_swap = auto_swap \<and> c_preferred c \<noteq> USDC then
                     c\<lparr> c_local := c_local c
                          + q_output (quoteFor 2000000 (c_preferred contractor) (e_now exEnv)),
                        c_assetOptedIn := Some True \<rparr>
                   else c\<lparr> c_usdc := c_usdc c + 2000000, c_assetOptedIn := Some True \<rparr>)
            (contractors exState)"
    and a: "activity (snd (executePayment exView exEnv ''c-alice'' 2000000 auto_swap None
              exState)) = entry # activity exState"
      "a_kind entry = payment"
    by blast
  have "contractor = alice" using f ex_find_alice by simp
  then have r1: "contractors (snd (executePayment exView exEnv ''c-alice'' 2000000 auto_swap None
              exState))
       = [alice\<lparr> c_local := c_local alice + 33.83, c_assetOptedIn := Some True \<rparr>, bob]"
    unfolding c cs using q by (simp add: alice_def bob_def)
  note t2 = executePayment_credits_contractor
    [of exView refreshDown "''c-alice''" 2000000 usd_hold None exState, THEN conjunct2,
      rule_format, OF conjI [OF ex_pay_alice_refresh_down(2,3)]]
  from t2 obtain contractor2 :: Contractor where
    c2: "contractors (snd (executePayment exView refreshDown ''c-alice'' 2000000 usd_hold None
              exState)) =
          map (\<lambda>c. if c_id c \<noteq> ''c-alice'' then c
                   else if usd_hold = auto_swap \<and> c_preferred c \<noteq> USDC then
                     c\<lparr> c_local := c_local c
                          + q_output (quoteFor 2000000 (c_preferred contractor2)
                              (e_now refreshDown)),
                        c_assetOptedIn := Some True \<rparr>
                   else c\<lparr> c_usdc := c_usdc c + 2000000, c_assetOptedIn := Some True \<rparr>)
            (contractors exState)"
    by blast
  have r2: "contractors (snd (executePayment exView refreshDown ''c-alice'' 2000000 usd_hold None
         exState))
       = [alice\<lparr> c_usdc := c_usdc alice + 2000000, c_assetOptedIn := Some True \<rparr>, bob]"
    unfolding c2 cs by (simp add: alice_def bob_def)
  show ?thesis using ex_pay_alice r1 a r2 ex_pay_alice_refresh_down(1) by simp
qed

section \<open>Properties of schedule advancement\<close>

lemma updateSchedules_Inr:
  assumes "updateSchedules other sid ss = Inr ss'"
  shows "list_all2 (scheduleStep other sid) ss ss'"
  using assms
proof (induction ss arbitrary: ss')
  case Nil
  then show ?case by simp
next
  case (Cons s rest)
  from Cons.prems obtain s' rest' where
    p: "(if s_id s \<noteq> sid then Inr s else advanceSchedule other s) = Inr s'"
      "updateSchedules other sid rest = Inr rest'" "ss' = s' # rest'"
    by (auto split: sum.splits)
  have "scheduleStep other sid s s'" using p(1) by (auto simp: scheduleStep_def split: if_splits)
  then show ?case using Cons.IH [OF p(2)] p(3) by simp
qed

lemma recordPayment_schedules:
  assumes "sid \<noteq> []"
    and "\<not> renderFailed (snd (recordPayment v env cid amount mode (Some sid) q result st))"
  shows "updateSchedules (v_dateParse v) sid (schedules st)
         = Inr (schedules (snd (recordPayment v env cid amount mode (Some sid) q result st)))"
  using assms
  by (cases "updateSchedules (v_dateParse v) sid (schedules st)")
     (simp_all add: recordPayment_def Let_def refresh_keeps)

lemma executePayment_schedules:
  assumes "executePayment v env cid amount mode (Some sid) st = (Inr (), st')"
    and "sid \<noteq> []" and "\<not> renderFailed st'"
  shows "list_all2 (scheduleStep (v_dateParse v) sid) (schedules st) (schedules st')"
proof -
  from assms(1) obtain contractor and available :: rat and result st2 where
    run: "runWalletTx (payoutOperation v env contractor amount)
                (st\<lparr> loading := ''payment'' \<rparr>) = (Inr result, st2)"
    and rec: "recordPayment v env cid amount mode (Some sid)
       (quoteFor amount (if mode = auto_swap then c_preferred contractor else USDC) (e_now env))
       result st2 = (Inr (), st')"
    by (rule executePayment_success)
  have k: "schedules st2 = schedules st"
    using runWalletTx_payout_keeps(2)
      [of v env contractor amount "st\<lparr> loading := ''payment'' \<rparr>"]
    unfolding run by simp
  have "updateSchedules (v_dateParse v) sid (schedules st2) = Inr (schedules st')"
    using recordPayment_schedules [OF assms(2), of v env cid amount mode
        "quoteFor amount (if mode = auto_swap then c_preferred contractor else USDC) (e_now env)"
        result st2]
      assms(3) unfolding rec by simp
  then show ?thesis unfolding k by (rule updateSchedules_Inr)
qed

lemma advanceSchedule_one_time:
  assumes "s_cadence s = one_time"
  shows "advanceSchedule other s = Inr (s\<lparr> s_status := completed \<rparr>)"
  using assms by (simp add: advanceSchedule_def nextDate_def)

lemma isoDate_not_empty: "isoDate x \<noteq> []"
  using length_isoDate [of x] by auto

lemma advanceSchedule_weekly:
  assumes "s_cadence s = weekly" "s_nextDate s = isoDate x"
    and "validDate x" "0 \<le> fst x" "fst ((tomorrow ^^ 7) x) \<le> 9999"
  shows "advanceSchedule other s = Inr (s\<lparr> s_nextDate := isoDate ((tomorrow ^^ 7) x) \<rparr>)"
  using assms(1,2) nextDate_weekly_calendar [OF assms(3-5), of other]
  by (simp add: advanceSchedule_def isoDate_not_empty)

lemma advanceSchedule_monthly:
  assumes "s_cadence s = monthly" "s_nextDate s = isoDate (y, m, d)"
    and "validDate (y, m, d)" "0 \<le> y"
    and "followingMonth (y, m) = (y1, m1)" "followingMonth (y1, m1) = (y2, m2)"
    and "y2 \<le> 9999"
  shows "advanceSchedule other s =
         Inr (s\<lparr> s_nextDate := isoDate (if d \<le> DaysInMonth y1 m1 then (y1, m1, d)
                                          else (y2, m2, d - DaysInMonth y1 m1)) \<rparr>)"
  using assms(1,2) nextDate_monthly_calendar [OF assms(3-7), of other]
  by (simp add: advanceSchedule_def isoDate_not_empty)

lemma ex_pass_weekly:
  "fst (executePayment exView exEnv ''c-alice'' 1000000 auto_swap (Some ''s-1'') exState) = Inr ()"
  "\<not> renderFailed
       (snd (executePayment exView exEnv ''c-alice'' 1000000 auto_swap (Some ''s-1'') exState))"
  by code_simp+

lemma ex_pass_one_time:
  "fst (executePayment exView exEnv ''c-bob'' 1000000 auto_swap (Some ''s-2'') exState) = Inr ()"
  "\<not> renderFailed
       (snd (executePayment exView exEnv ''c-bob'' 1000000 auto_swap (Some ''s-2'') exState))"
  by code_simp+

lemma ex_dates:
  "isoDate (2025, 1, 31) = ''2025-01-31''" "isoDate (2025, 2, 7) = ''2025-02-07''"
  "isoDate (2025, 3, 3) = ''2025-03-03''"
  "validDate (2025, 1, 31)" "(tomorrow ^^ 7) (2025, 1, 31) = (2025, 2, 7)"
  "followingMonth (2025, 1) = (2025, 2)" "followingMonth (2025, 2) = (2025, 3)"
  "DaysInMonth 2025 2 = 28"
  by code_simp+

lemma ex_schedules:
  "schedules exState ! 0 = exSchedule ''s-1'' ''c-alice'' weekly ''2025-01-31'' active"
  "schedules exState ! 1 = exSchedule ''s-2'' ''c-bob'' one_time ''2025-02-01'' active"
  "schedules exState ! Suc 0 = exSchedule ''s-2'' ''c-bob'' one_time ''2025-02-01'' active"
  "schedules exState ! 2 = exSchedule ''s-3'' ''c-alice'' monthly ''2025-01-31'' active"
  "length (schedules exState) = 5"
  by (simp_all add: exState_def)

lemma ex_pass_monthly:
  "fst (executePayment exView exEnv ''c-alice'' 1000000 auto_swap (Some ''s-3'') exState) = Inr ()"
  "\<not> renderFailed
       (snd (executePayment exView exEnv ''c-alice'' 1000000 auto_swap (Some ''s-3'') exState))"
  by code_simp+

text \<open>
  C7: after a payout replayed from the schedule \<open>sid\<close> has succeeded (and the update of
  the schedules has been rendered), the schedules are the former ones, position by
  position: a schedule with another id is unchanged; a \<^verbatim>\<open>one-time\<close> schedule with the id
  has the status \<^verbatim>\<open>completed\<close> and is otherwise unchanged; a \<^verbatim>\<open>weekly\<close> schedule with the
  id, whose next-due-date is the calendar date \<open>x\<close>, has the next-due-date seven calendar
  days after \<open>x\<close> (seven times the day after, in the Gregorian calendar) and is otherwise
  unchanged, so it stays \<^verbatim>\<open>active\<close>. Dates are written \<^verbatim>\<open>YYYY-MM-DD\<close>, with years from
  0000 to 9999.
\<close>

theorem schedule_pass_one_time_and_weekly:
  assumes "executePayment v env cid amount mode (Some sid) st = (Inr (), st')"
    and "sid \<noteq> []" and "\<not> renderFailed st'"
  shows "length (schedules st') = length (schedules st)
    \<and> (\<forall>i < length (schedules st).
        (s_id (schedules st ! i) \<noteq> sid \<longrightarrow> schedules st' ! i = schedules st ! i)
      \<and> (s_id (schedules st ! i) = sid \<and> s_cadence (schedules st ! i) = one_time \<longrightarrow>
           schedules st' ! i = (schedules st ! i)\<lparr> s_status := completed \<rparr>)
      \<and> (\<forall>x. s_id (schedules st ! i) = sid \<and> s_cadence (schedules st ! i) = weekly
               \<and> s_nextDate (schedules st ! i) = isoDate x \<and> validDate x
               \<and> 0 \<le> fst x \<and> fst ((tomorrow ^^ 7) x) \<le> 9999 \<longrightarrow>
           schedules st' ! i
             = (schedules st ! i)\<lparr> s_nextDate := isoDate ((tomorrow ^^ 7) x) \<rparr>))"
proof -
  note all = executePayment_schedules [OF assms]
  have len: "length (schedules st') = length (schedules st)"
    using all by (simp add: list_all2_lengthD)
  have each: "if s_id (schedules st ! i) \<noteq> sid then schedules st' ! i = schedules st ! i
      else advanceSchedule (v_dateParse v) (schedules st ! i) = Inr (schedules st' ! i)"
    if "i < length (schedules st)" for i
    using list_all2_nthD [OF all that] by (simp add: scheduleStep_def)
  show ?thesis
  proof (intro conjI allI impI)
    show "length (schedules st') = length (schedules st)" by (rule len)
  next
    fix i assume "i < length (schedules st)" "s_id (schedules st ! i) \<noteq> sid"
    then show "schedules st' ! i = schedules st ! i" using each by simp
  next
    fix i assume i: "i < length (schedules st)"
      and "s_id (schedules st ! i) = sid \<and> s_cadence (schedules st ! i) = one_time"
    then show "schedules st' ! i = (schedules st ! i)\<lparr> s_status := completed \<rparr>"
      using each [OF i] advanceSchedule_one_time [of "schedules st ! i" "v_dateParse v"]
      by simp
  next
    fix i x assume i: "i < length (schedules st)"
      and w: "s_id (schedules st ! i) = sid \<and> s_cadence (schedules st ! i) = weekly
               \<and> s_nextDate (schedules st ! i) = isoDate x \<and> validDate x
               \<and> 0 \<le> fst x \<and> fst ((tomorrow ^^ 7) x) \<le> 9999"
    then have "advanceSchedule (v_dateParse v) (schedules st ! i)
        = Inr ((schedules st ! i)\<lparr> s_nextDate := isoDate ((tomorrow ^^ 7) x) \<rparr>)"
      by (intro advanceSchedule_weekly) simp_all
    then show "schedules st' ! i
             = (schedules st ! i)\<lparr> s_nextDate := isoDate ((tomorrow ^^ 7) x) \<rparr>"
      using each [OF i] w by simp
  qed
qed

theorem schedule_pass_one_time_and_weekly_witness:
  "executePayment exView exEnv ''c-alice'' 1000000 auto_swap (Some ''s-1'') exState
     = (Inr (), snd (executePayment exView exEnv ''c-alice'' 1000000 auto_swap (Some ''s-1'')
                       exState))
   \<and> schedules (snd (executePayment exView exEnv ''c-alice'' 1000000 auto_swap (Some ''s-1'')
                       exState)) ! 0
       = exSchedule ''s-1'' ''c-alice'' weekly ''2025-02-07'' active
   \<and> schedules (snd (executePayment exView exEnv ''c-alice'' 1000000 auto_swap (Some ''s-1'')
                       exState)) ! 1
       = exSchedule ''s-2'' ''c-bob'' one_time ''2025-02-01'' active
   \<and> schedules (snd (executePayment exView exEnv ''c-bob'' 1000000 auto_swap (Some ''s-2'')
                       exState)) ! 1
       = exSchedule ''s-2'' ''c-bob'' one_time ''2025-02-01'' completed"
proof -
  have w: "executePayment exView exEnv ''c-alice'' 1000000 auto_swap (Some ''s-1'') exState
     = (Inr (), snd (executePayment exView exEnv ''c-alice'' 1000000 auto_swap (Some ''s-1'')
                       exState))"
    using ex_pass_weekly(1) by (simp add: prod_eq_iff)
  have o: "executePayment exView exEnv ''c-bob'' 1000000 auto_swap (Some ''s-2'') exState
     = (Inr (), snd (executePayment exView exEnv ''c-bob'' 1000000 auto_swap (Some ''s-2'')
                       exState))"
    using ex_pass_one_time(1) by (simp add: prod_eq_iff)
  have ne: "''s-1'' \<noteq> []" "''s-2'' \<noteq> []" by simp_all
  note tw = schedule_pass_one_time_and_weekly [OF w ne(1) ex_pass_weekly(2)]
  note to = schedule_pass_one_time_and_weekly [OF o ne(2) ex_pass_one_time(2)]
  have w0: "schedules (snd (executePayment exView exEnv ''c-alice'' 1000000 auto_swap
                (Some ''s-1'') exState)) ! 0
       = exSchedule ''s-1'' ''c-alice'' weekly ''2025-02-07'' active"
    using tw [THEN conjunct2, rule_format, of 0, THEN conjunct2, THEN conjunct2, rule_format,
        of "(2025, 1, 31)"]
    by (simp add: ex_schedules ex_dates exSchedule_def)
  have w1: "schedules (snd (executePayment exView exEnv ''c-alice'' 1000000 auto_swap
                (Some ''s-1'') exState)) ! 1
       = exSchedule ''s-2'' ''c-bob'' one_time ''2025-02-01'' active"
    using tw [THEN conjunct2, rule_format, of 1, THEN conjunct1]
    by (simp add: ex_schedules exSchedule_def)
  have o1: "schedules (snd (executePayment exView exEnv ''c-bob'' 1000000 auto_swap
                (Some ''s-2'') exState)) ! 1
       = exSchedule ''s-2'' ''c-bob'' one_time ''2025-02-01'' completed"
    using to [THEN conjunct2, rule_format, of 1, THEN conjunct2, THEN conjunct1]
    by (simp add: ex_schedules exSchedule_def)
  show ?thesis using w w0 w1 o1 by simp
qed

text \<open>
  C10: after a successful payout replayed from a \<^verbatim>\<open>monthly\<close> schedule whose next-due-date
  is the day \<open>d\<close> of a month, when the following month has fewer than \<open>d\<close> days the new
  next-due-date lies in the month after the following one, on the day \<open>d\<close> minus the length
  of the following month (one of its first three days), and not on the last day of the
  following month: 2025-01-31 advances to 2025-03-03. When the following month has the day
  \<open>d\<close>, the new date is that day. In both cases the date is the one the calendar of the
  language gives to the same day number in the month index increased by one
  (\<^verbatim>\<open>setUTCMonth(getUTCMonth() + 1)\<close>).
\<close>

theorem monthly_pass_overflows_short_month:
  assumes "executePayment v env cid amount mode (Some sid) st = (Inr (), st')"
    and "sid \<noteq> []" and "\<not> renderFailed st'"
    and "i < length (schedules st)" and "s_id (schedules st ! i) = sid"
    and "s_cadence (schedules st ! i) = monthly"
    and "s_nextDate (schedules st ! i) = isoDate (y, m, d)"
    and "validDate (y, m, d)" and "0 \<le> y"
    and "followingMonth (y, m) = (y1, m1)" and "followingMonth (y1, m1) = (y2, m2)"
    and "y2 \<le> 9999"
  shows "(DaysInMonth y1 m1 < d \<longrightarrow>
            schedules st' ! i
              = (schedules st ! i)\<lparr> s_nextDate := isoDate (y2, m2, d - DaysInMonth y1 m1) \<rparr>
            \<and> 1 \<le> d - DaysInMonth y1 m1 \<and> d - DaysInMonth y1 m1 \<le> 3)
    \<and> (d \<le> DaysInMonth y1 m1 \<longrightarrow>
            schedules st' ! i = (schedules st ! i)\<lparr> s_nextDate := isoDate (y1, m1, d) \<rparr>)
    \<and> nextDate (v_dateParse v) (isoDate (y, m, d)) monthly
        = (case toISOString (Some (MakeDate (MakeDay y (m - 1 + 1) d) 0)) of
             Inl e \<Rightarrow> Inl e
           | Inr s \<Rightarrow> Inr (Some (take 10 s)))
    \<and> nextDate (v_dateParse v) ''2025-01-31'' monthly = Inr (Some ''2025-03-03'')"
proof -
  have step: "advanceSchedule (v_dateParse v) (schedules st ! i) = Inr (schedules st' ! i)"
    using list_all2_nthD [OF executePayment_schedules [OF assms(1-3)] assms(4)] assms(5)
    by (simp add: scheduleStep_def)
  note adv = advanceSchedule_monthly [OF assms(6-12), of "v_dateParse v"]
  have v: "1 \<le> m" "m \<le> 12" "1 \<le> d" "d \<le> DaysInMonth y m"
    using assms(8) by (simp_all add: validDate_def)
  have dim: "28 \<le> DaysInMonth y1 m1"
    using LeapDays_cases [of y1] by (auto simp: DaysInMonth_def)
  have d31: "d \<le> 31" using v(4) DaysInMonth_le [of y m] by simp
  define r where "r = (if d \<le> DaysInMonth y1 m1 then (y1, m1, d)
                       else (y2, m2, d - DaysInMonth y1 m1))"
  have nd: "nextDate (v_dateParse v) (isoDate (y, m, d)) monthly = Inr (Some (isoDate r))"
    unfolding r_def using assms(8-12) by (rule nextDate_monthly_calendar)
  have f1: "y \<le> y1" "y1 \<le> y2" "1 \<le> m1" "m1 \<le> 12" "1 \<le> m2" "m2 \<le> 12"
    using assms(10,11) v(1,2) by (auto simp: followingMonth_def split: if_splits)
  have vr: "validDate r"
    using v(3) d31 dim f1 LeapDays_cases [of y2]
    by (auto simp: r_def validDate_def DaysInMonth_def)
  have ry: "0 \<le> fst r" "fst r \<le> 9999" using f1 assms(9,12) by (auto simp: r_def)
  obtain ry rm rd where r: "r = (ry, rm, rd)" by (cases r)
  have shift: "MakeDay y (m - 1 + 1) d = dayNumber r"
  proof -
    have md: "MakeDay y m d = MakeDay y1 (m1 - 1) d"
      using assms(10) v(2)
      by (cases "m < 12") (auto simp: followingMonth_def MakeDay_def)
    show ?thesis
    proof (cases "d \<le> DaysInMonth y1 m1")
      case True
      then show ?thesis using md by (simp add: r_def dayNumber_def)
    next
      case False
      have last: "validDate (y1, m1, DaysInMonth y1 m1)"
        using f1(3,4) dim by (simp add: validDate_def)
      have tm: "tomorrow (y1, m1, DaysInMonth y1 m1) = (y2, m2, 1)"
        using assms(11) by (auto simp: tomorrow_def followingMonth_def split: if_splits)
      have "dayNumber (y2, m2, 1) = dayNumber (y1, m1, DaysInMonth y1 m1) + 1"
        using dayNumber_tomorrow(2) [OF last] unfolding tm .
      then show ?thesis
        using False md f1 by (simp add: r_def dayNumber_def MakeDay_in_year)
    qed
  qed
  have iso: "toISOString (Some (MakeDate (MakeDay y (m - 1 + 1) d) 0))
             = Inr (isoDate r @ ''T00:00:00.000Z'')"
    using toISOString_midnight [of ry rm rd] vr ry
    unfolding shift by (simp add: r MakeDate_def)
  have ex: "nextDate (v_dateParse v) ''2025-01-31'' monthly = Inr (Some ''2025-03-03'')"
    using nextDate_monthly_calendar [of 2025 1 31 2025 2 2025 3 "v_dateParse v"]
    by (simp add: ex_dates)
  show ?thesis
  proof (intro conjI impI)
    assume "DaysInMonth y1 m1 < d"
    then show "schedules st' ! i
              = (schedules st ! i)\<lparr> s_nextDate := isoDate (y2, m2, d - DaysInMonth y1 m1) \<rparr>"
      "1 \<le> d - DaysInMonth y1 m1" "d - DaysInMonth y1 m1 \<le> 3"
      using step adv dim d31 by simp_all
  next
    assume "d \<le> DaysInMonth y1 m1"
    then show "schedules st' ! i = (schedules st ! i)\<lparr> s_nextDate := isoDate (y1, m1, d) \<rparr>"
      using step adv by simp
  next
    show "nextDate (v_dateParse v) (isoDate (y, m, d)) monthly
        = (case toISOString (Some (MakeDate (MakeDay y (m - 1 + 1) d) 0)) of
             Inl e \<Rightarrow> Inl e
           | Inr s \<Rightarrow> Inr (Some (take 10 s)))"
      unfolding nd iso by (simp add: length_isoDate)
    show "nextDate (v_dateParse v) ''2025-01-31'' monthly = Inr (Some ''2025-03-03'')"
      by (rule ex)
  qed
qed

theorem monthly_pass_overflows_short_month_witness:
  "executePayment exView exEnv ''c-alice'' 1000000 auto_swap (Some ''s-3'') exState
     = (Inr (), snd (executePayment exView exEnv ''c-alice'' 1000000 auto_swap (Some ''s-3'')
                       exState))
   \<and> validDate (2025, 1, 31) \<and> DaysInMonth 2025 2 < 31
   \<and> schedules (snd (executePayment exView exEnv ''c-alice'' 1000000 auto_swap (Some ''s-3'')
                       exState)) ! 2
       = exSchedule ''s-3'' ''c-alice'' monthly ''2025-03-03'' active"
proof -
  have run: "executePayment exView exEnv ''c-alice'' 1000000 auto_swap (Some ''s-3'') exState
     = (Inr (), snd (executePayment exView exEnv ''c-alice'' 1000000 auto_swap (Some ''s-3'')
                       exState))"
    using ex_pass_monthly(1) by (simp add: prod_eq_iff)
  have ne: "''s-3'' \<noteq> []" by simp
  have i: "2 < length (schedules exState)" "s_id (schedules exState ! 2) = ''s-3''"
    "s_cadence (schedules exState ! 2) = monthly"
    "s_nextDate (schedules exState ! 2) = isoDate (2025, 1, 31)"
    by (simp_all add: ex_schedules ex_dates exSchedule_def)
  have y: "(0::int) \<le> 2025" "(2025::int) \<le> 9999" by simp_all
  note t = monthly_pass_overflows_short_month
    [OF run ne ex_pass_monthly(2) i ex_dates(4) y(1) ex_dates(6,7) y(2)]
  show ?thesis
    using t run by (simp add: ex_dates ex_schedules exSchedule_def)
qed

section \<open>Properties of the schedule processor\<close>

lemma str_le_lexord:
  "str_le a b \<longleftrightarrow> a = b \<or> (a, b) \<in> lexord {(x, y). (of_char x :: nat) < of_char y}"
proof (induction a b rule: str_le.induct)
  case (1 b)
  then show ?case by (cases b) auto
next
  case (2 x xs)
  then show ?case by simp
next
  case (3 x xs y ys)
  then show ?case by auto
qed

lemma processLoop_attempts:
  "map fst (fst (processLoop v envs i due k st)) = map s_id due"
proof (induction due arbitrary: i k st)
  case Nil
  then show ?case by simp
next
  case (Cons s rest)
  obtain outcome st' where
    e: "executePayment v (envs i) (s_contractorId s) (s_amountUsdc s) (s_mode s)
          (Some (s_id s)) st = (outcome, st')"
    by (cases "executePayment v (envs i) (s_contractorId s) (s_amountUsdc s) (s_mode s)
          (Some (s_id s)) st")
  show ?case
  proof (cases outcome)
    case (Inl failure)
    then show ?thesis
      using Cons [of "Suc i" k
          "enqueueSnackbar (''Schedule payment failed: '' @ err failure) ''error'' st'"]
      by (auto simp: e split: prod.splits)
  next
    case (Inr u)
    then show ?thesis
      using Cons [of "Suc i" "k + 1" st'] by (auto simp: e split: prod.splits)
  qed
qed

lemma processLoop_count:
  "fst (snd (processLoop v envs i due k st))
     = k + length (filter succeeded (fst (processLoop v envs i due k st)))"
proof (induction due arbitrary: i k st)
  case Nil
  then show ?case by simp
next
  case (Cons s rest)
  obtain outcome st' where
    e: "executePayment v (envs i) (s_contractorId s) (s_amountUsdc s) (s_mode s)
          (Some (s_id s)) st = (outcome, st')"
    by (cases "executePayment v (envs i) (s_contractorId s) (s_amountUsdc s) (s_mode s)
          (Some (s_id s)) st")
  show ?case
  proof (cases outcome)
    case (Inl failure)
    then show ?thesis
      using Cons [of "Suc i" k
          "enqueueSnackbar (''Schedule payment failed: '' @ err failure) ''error'' st'"]
      by (auto simp: e succeeded_def split: prod.splits)
  next
    case (Inr u)
    then show ?thesis
      using Cons [of "Suc i" "k + 1" st']
      by (auto simp: e succeeded_def split: prod.splits)
  qed
qed

lemma refresh_guard:
  "walletRequestInFlight (snd (refresh v fenv target st)) = walletRequestInFlight st"
  by (simp add: refresh_def Let_def split: sum.splits)

lemma recordPayment_keeps:
  "snackbar (snd (recordPayment v env cid amount mode sid q result st)) = snackbar st"
  "walletRequestInFlight (snd (recordPayment v env cid amount mode sid q result st))
     = walletRequestInFlight st"
  by (simp_all add: recordPayment_def Let_def refresh_keeps refresh_guard
      split: option.splits sum.splits)

lemma runWalletTx_payout_guard:
  "walletRequestInFlight (snd (runWalletTx (payoutOperation v env c amount) st))
     = walletRequestInFlight st"
  by (simp add: runWalletTx_def guardSettle_def guardAcquire_def payoutOperation_def Let_def
      split: sum.splits prod.splits)

lemma executePayment_keeps:
  "snackbar (snd (executePayment v env cid amount mode sid st)) = snackbar st"
  "walletRequestInFlight (snd (executePayment v env cid amount mode sid st))
     = walletRequestInFlight st"
proof -
  have s: "snackbar (snd (runWalletTx (payoutOperation v env c amount)
             (st\<lparr> loading := ''payment'' \<rparr>))) = snackbar st" for c
    using runWalletTx_payout_keeps(5) [of v env c amount "st\<lparr> loading := ''payment'' \<rparr>"]
    by simp
  have g: "walletRequestInFlight (snd (runWalletTx (payoutOperation v env c amount)
             (st\<lparr> loading := ''payment'' \<rparr>))) = walletRequestInFlight st" for c
    using runWalletTx_payout_guard [of v env c amount "st\<lparr> loading := ''payment'' \<rparr>"]
    by simp
  show "snackbar (snd (executePayment v env cid amount mode sid st)) = snackbar st"
    using s recordPayment_keeps(1)
    by (auto simp: executePayment_def Let_def split: option.splits sum.splits prod.splits)
       (metis snd_conv)+
  show "walletRequestInFlight (snd (executePayment v env cid amount mode sid st))
     = walletRequestInFlight st"
    using g recordPayment_keeps(2)
    by (auto simp: executePayment_def Let_def split: option.splits sum.splits prod.splits)
       (metis snd_conv)+
qed

lemma processLoop_states:
  "\<exists>sts. length sts = Suc (length due) \<and> sts ! 0 = st
     \<and> last sts = snd (snd (processLoop v envs i0 due k st))
     \<and> length (fst (processLoop v envs i0 due k st)) = length due
     \<and> (\<forall>x\<in>set sts. walletRequestInFlight x = walletRequestInFlight st)
     \<and> (\<forall>j<length due. \<exists>outcome st'.
           executePayment v (envs (i0 + j)) (s_contractorId (due ! j)) (s_amountUsdc (due ! j))
             (s_mode (due ! j)) (Some (s_id (due ! j))) (sts ! j) = (outcome, st')
           \<and> fst (processLoop v envs i0 due k st) ! j = (s_id (due ! j), outcome)
           \<and> sts ! Suc j
               = (case outcome of
                    Inl e \<Rightarrow> enqueueSnackbar (''Schedule payment failed: '' @ err e) ''error'' st'
                  | Inr u \<Rightarrow> st'))"
proof (induction due arbitrary: i0 k st)
  case Nil
  show ?case by (rule exI [of _ "[st]"]) simp
next
  case (Cons s rest)
  obtain outcome st1 where
    e: "executePayment v (envs i0) (s_contractorId s) (s_amountUsdc s) (s_mode s)
          (Some (s_id s)) st = (outcome, st1)"
    by (cases "executePayment v (envs i0) (s_contractorId s) (s_amountUsdc s) (s_mode s)
          (Some (s_id s)) st")
  define st2 where
    "st2 = (case outcome of
              Inl e \<Rightarrow> enqueueSnackbar (''Schedule payment failed: '' @ err e) ''error'' st1
            | Inr u \<Rightarrow> st1)"
  define k2 where "k2 = (case outcome of Inl e \<Rightarrow> k | Inr u \<Rightarrow> k + 1)"
  obtain attempts m st3 where
    r: "processLoop v envs (Suc i0) rest k2 st2 = (attempts, m, st3)"
    by (cases "processLoop v envs (Suc i0) rest k2 st2")
  have step: "processLoop v envs i0 (s # rest) k st = ((s_id s, outcome) # attempts, m, st3)"
    using r by (cases outcome) (simp_all add: e st2_def k2_def)
  from Cons [of st2 "Suc i0" k2] obtain sts where
    l: "length sts = Suc (length rest)" and z: "sts ! 0 = st2"
    and f: "last sts = snd (snd (processLoop v envs (Suc i0) rest k2 st2))"
    and n: "length (fst (processLoop v envs (Suc i0) rest k2 st2)) = length rest"
    and g: "\<forall>x\<in>set sts. walletRequestInFlight x = walletRequestInFlight st2"
    and a: "\<And>j. j < length rest \<Longrightarrow> \<exists>outcome st'.
           executePayment v (envs (Suc i0 + j)) (s_contractorId (rest ! j))
             (s_amountUsdc (rest ! j)) (s_mode (rest ! j)) (Some (s_id (rest ! j))) (sts ! j)
             = (outcome, st')
           \<and> fst (processLoop v envs (Suc i0) rest k2 st2) ! j = (s_id (rest ! j), outcome)
           \<and> sts ! Suc j
               = (case outcome of
                    Inl e \<Rightarrow> enqueueSnackbar (''Schedule payment failed: '' @ err e) ''error'' st'
                  | Inr u \<Rightarrow> st')"
    by blast
  have ne: "sts \<noteq> []" using l by auto
  have g2: "walletRequestInFlight st2 = walletRequestInFlight st"
    using executePayment_keeps(2)
      [of v "envs i0" "s_contractorId s" "s_amountUsdc s" "s_mode s" "Some (s_id s)" st]
    unfolding e by (cases outcome) (simp_all add: st2_def enqueueSnackbar_def)
  show ?case
  proof (intro exI [of _ "st # sts"] conjI allI impI)
    show "\<forall>x\<in>set (st # sts). walletRequestInFlight x = walletRequestInFlight st"
      using g g2 by simp
    show "length (st # sts) = Suc (length (s # rest))" using l by simp
    show "(st # sts) ! 0 = st" by simp
    show "last (st # sts) = snd (snd (processLoop v envs i0 (s # rest) k st))"
      using ne f unfolding step r by simp
    show "length (fst (processLoop v envs i0 (s # rest) k st)) = length (s # rest)"
      using n unfolding step r by simp
    fix j
    assume j: "j < length (s # rest)"
    show "\<exists>outcome st'.
           executePayment v (envs (i0 + j)) (s_contractorId ((s # rest) ! j))
             (s_amountUsdc ((s # rest) ! j)) (s_mode ((s # rest) ! j))
             (Some (s_id ((s # rest) ! j))) ((st # sts) ! j) = (outcome, st')
           \<and> fst (processLoop v envs i0 (s # rest) k st) ! j = (s_id ((s # rest) ! j), outcome)
           \<and> (st # sts) ! Suc j
               = (case outcome of
                    Inl e \<Rightarrow> enqueueSnackbar (''Schedule payment failed: '' @ err e) ''error'' st'
                  | Inr u \<Rightarrow> st')"
    proof (cases j)
      case 0
      show ?thesis
        unfolding 0 step using e z by (simp add: st2_def)
    next
      case (Suc j')
      then have "j' < length rest" using j by simp
      from a [OF this] show ?thesis
        unfolding Suc step r by simp
    qed
  qed
qed

lemma processLoop_snackbar:
  "snackbar (snd (snd (processLoop v envs i due k st)))
     = snackbar st
       @ concat (map (\<lambda>attempt. case snd attempt of
                        Inl e \<Rightarrow> [(''Schedule payment failed: '' @ err e, ''error'')]
                      | Inr u \<Rightarrow> [])
                   (fst (processLoop v envs i due k st)))"
proof (induction due arbitrary: i k st)
  case Nil
  then show ?case by simp
next
  case (Cons s rest)
  obtain outcome st' where
    e: "executePayment v (envs i) (s_contractorId s) (s_amountUsdc s) (s_mode s)
          (Some (s_id s)) st = (outcome, st')"
    by (cases "executePayment v (envs i) (s_contractorId s) (s_amountUsdc s) (s_mode s)
          (Some (s_id s)) st")
  have s: "snackbar st' = snackbar st"
    using executePayment_keeps(1)
      [of v "envs i" "s_contractorId s" "s_amountUsdc s" "s_mode s" "Some (s_id s)" st]
    unfolding e by simp
  show ?case
  proof (cases outcome)
    case (Inl failure)
    then show ?thesis
      using Cons [of "Suc i" k
          "enqueueSnackbar (''Schedule payment failed: '' @ err failure) ''error'' st'"] s
      by (auto simp: e enqueueSnackbar_def split: prod.splits)
  next
    case (Inr u)
    then show ?thesis
      using Cons [of "Suc i" "k + 1" st'] s by (auto simp: e split: prod.splits)
  qed
qed

lemma ex_due:
  "dueSchedules exView = [exSchedule ''s-1'' ''c-alice'' weekly ''2025-01-31'' active,
                         exSchedule ''s-2'' ''c-bob'' one_time ''2025-02-01'' active,
                         exSchedule ''s-3'' ''c-alice'' monthly ''2025-01-31'' active]"
  by code_simp

lemma ex_processDue:
  "fst (processDue exView exEnvs exState)
     = [(''s-1'', Inr ()), (''s-2'', Inl (Error ''user rejected'')), (''s-3'', Inr ())]"
  by code_simp

lemma ex_decimal: "decimal 2 = ''2''" "decimal 3 = ''3''"
  by code_simp+

lemma ex_processDue_state:
  "snackbar exState = []"
  "map k_recipient (payoutCalls (snd (processDue exView exEnvs exState)))
     = [''ALICEADDR'', ''BOBADDR'', ''ALICEADDR'']"
  "map (\<lambda>s. (s_id s, s_nextDate s, s_status s)) (schedules (snd (processDue exView exEnvs exState)))
     = [(''s-1'', ''2025-02-07'', active), (''s-2'', ''2025-02-01'', active),
        (''s-3'', ''2025-03-03'', active), (''s-4'', ''2025-03-31'', active),
        (''s-5'', ''2025-01-01'', completed)]"
  by code_simp+

lemma ex_processDue_refresh_down:
  "fst (processDue exView (\<lambda>i. refreshDown) exState)
     = [(''s-1'', Inl (Error ''indexer down'')), (''s-2'', Inl (Error ''indexer down'')),
        (''s-3'', Inl (Error ''indexer down''))]"
  "length (payoutCalls (snd (processDue exView (\<lambda>i. refreshDown) exState))) = 3"
  by code_simp+

text \<open>
  C5: the due schedules are the \<^verbatim>\<open>active\<close> schedules whose next-due-date equals today's
  date or precedes it in the lexicographic order of strings. \<^verbatim>\<open>processDue\<close> attempts
  each of them and no other schedule, in their order. When there is none, nothing is
  attempted and the notification \<^verbatim>\<open>No due schedules\<close> is shown. When there is one, there
  is a sequence of states, one before each attempt and one after the last, that starts at
  the given state with the loading marker set: attempt \<open>i\<close> is the call of
  \<^verbatim>\<open>executePayment\<close> on the \<open>i\<close>-th due schedule from the \<open>i\<close>-th state, its outcome is
  the one recorded for the attempt, and the next state is the one the call leaves, with a
  failure notification added when the call failed; so the attempts after a failed one
  are made all the same, from the state the failed one left. The guard reference is in
  every state of the sequence what it was at the start, so that no attempt is refused
  because of an earlier one. The final state is the last of the sequence with the loading
  marker cleared and the notification \<^verbatim>\<open>Processed k/n due schedules\<close> added, with \<open>k\<close> the
  number of attempts that succeeded and \<open>n\<close> the number of due schedules; an attempt
  succeeds when its call of \<^verbatim>\<open>executePayment\<close> returns, the closing refresh included. The
  notifications shown are the former ones, one failure notification for each failed
  attempt, in the order of the attempts, and the report.
\<close>

theorem processDue_attempts_every_due_schedule:
  "dueSchedules v
     = filter (\<lambda>s. s_status s = active
                \<and> (s_nextDate s = v_today v
                   \<or> (s_nextDate s, v_today v) \<in> lexord {(x, y). (of_char x :: nat) < of_char y}))
         (v_schedules v)
   \<and> map fst (fst (processDue v envs st)) = map s_id (dueSchedules v)
   \<and> (dueSchedules v = [] \<longrightarrow>
        processDue v envs st = ([], enqueueSnackbar ''No due schedules'' ''info'' st))
   \<and> (dueSchedules v \<noteq> [] \<longrightarrow>
        (\<exists>sts. length sts = Suc (length (dueSchedules v))
           \<and> sts ! 0 = st\<lparr> loading := ''schedule'' \<rparr>
           \<and> (\<forall>i<length (dueSchedules v). \<exists>outcome st'.
                 executePayment v (envs i) (s_contractorId (dueSchedules v ! i))
                   (s_amountUsdc (dueSchedules v ! i)) (s_mode (dueSchedules v ! i))
                   (Some (s_id (dueSchedules v ! i))) (sts ! i) = (outcome, st')
                 \<and> fst (processDue v envs st) ! i = (s_id (dueSchedules v ! i), outcome)
                 \<and> sts ! Suc i
                     = (case outcome of
                          Inl e \<Rightarrow>
                            enqueueSnackbar (''Schedule payment failed: '' @ err e) ''error'' st'
                        | Inr u \<Rightarrow> st'))
           \<and> (\<forall>x\<in>set sts. walletRequestInFlight x = walletRequestInFlight st)
           \<and> snd (processDue v envs st)
               = enqueueSnackbar
                   (''Processed ''
                    @ decimal (length (filter succeeded (fst (processDue v envs st))))
                    @ ''/'' @ decimal (length (dueSchedules v)) @ '' due schedules'')
                   ''success'' ((last sts)\<lparr> loading := [] \<rparr>))
        \<and> snackbar (snd (processDue v envs st))
            = snackbar st
              @ concat (map (\<lambda>attempt. case snd attempt of
                               Inl e \<Rightarrow> [(''Schedule payment failed: '' @ err e, ''error'')]
                             | Inr u \<Rightarrow> [])
                          (fst (processDue v envs st)))
              @ [(''Processed ''
                  @ decimal (length (filter succeeded (fst (processDue v envs st))))
                  @ ''/'' @ decimal (length (dueSchedules v)) @ '' due schedules'',
                  ''success'')])"
proof -
  obtain attempts n st' where
    loop: "processLoop v envs 0 (dueSchedules v) 0 (st\<lparr> loading := ''schedule'' \<rparr>)
             = (attempts, n, st')"
    by (cases "processLoop v envs 0 (dueSchedules v) 0 (st\<lparr> loading := ''schedule'' \<rparr>)")
  have a: "map fst attempts = map s_id (dueSchedules v)"
    using processLoop_attempts [of v envs 0 "dueSchedules v" 0 "st\<lparr> loading := ''schedule'' \<rparr>"]
    unfolding loop by simp
  have n: "n = length (filter succeeded attempts)"
    using processLoop_count [of v envs 0 "dueSchedules v" 0 "st\<lparr> loading := ''schedule'' \<rparr>"]
    unfolding loop by simp
  have due: "dueSchedules v
     = filter (\<lambda>s. s_status s = active
                \<and> (s_nextDate s = v_today v
                   \<or> (s_nextDate s, v_today v) \<in> lexord {(x, y). (of_char x :: nat) < of_char y}))
         (v_schedules v)"
    by (simp add: dueSchedules_def str_le_lexord)
  have ids: "map fst (fst (processDue v envs st)) = map s_id (dueSchedules v)"
    using a by (simp add: processDue_def loop)
  have none: "processDue v envs st = ([], enqueueSnackbar ''No due schedules'' ''info'' st)"
    if "dueSchedules v = []"
    using that by (simp add: processDue_def)
  have some: "processDue v envs st
      = (attempts,
         enqueueSnackbar
           (''Processed '' @ decimal (length (filter succeeded attempts)) @ ''/''
            @ decimal (length (dueSchedules v)) @ '' due schedules'')
           ''success'' (st'\<lparr> loading := [] \<rparr>))"
    if "dueSchedules v \<noteq> []"
    using that n by (simp add: processDue_def loop)
  have states: "\<exists>sts. length sts = Suc (length (dueSchedules v))
           \<and> sts ! 0 = st\<lparr> loading := ''schedule'' \<rparr>
           \<and> (\<forall>i<length (dueSchedules v). \<exists>outcome st'.
                 executePayment v (envs i) (s_contractorId (dueSchedules v ! i))
                   (s_amountUsdc (dueSchedules v ! i)) (s_mode (dueSchedules v ! i))
                   (Some (s_id (dueSchedules v ! i))) (sts ! i) = (outcome, st')
                 \<and> fst (processDue v envs st) ! i = (s_id (dueSchedules v ! i), outcome)
                 \<and> sts ! Suc i
                     = (case outcome of
                          Inl e \<Rightarrow>
                            enqueueSnackbar (''Schedule payment failed: '' @ err e) ''error'' st'
                        | Inr u \<Rightarrow> st'))
           \<and> (\<forall>x\<in>set sts. walletRequestInFlight x = walletRequestInFlight st)
           \<and> snd (processDue v envs st)
               = enqueueSnackbar
                   (''Processed ''
                    @ decimal (length (filter succeeded (fst (processDue v envs st))))
                    @ ''/'' @ decimal (length (dueSchedules v)) @ '' due schedules'')
                   ''success'' ((last sts)\<lparr> loading := [] \<rparr>)"
    if ne: "dueSchedules v \<noteq> []"
  proof -
    from processLoop_states [of "dueSchedules v" "st\<lparr> loading := ''schedule'' \<rparr>" v envs 0 0]
    obtain sts where
      s: "length sts = Suc (length (dueSchedules v))"
        "sts ! 0 = st\<lparr> loading := ''schedule'' \<rparr>"
        "last sts = st'"
        "\<forall>x\<in>set sts. walletRequestInFlight x
           = walletRequestInFlight (st\<lparr> loading := ''schedule'' \<rparr>)"
      and t: "\<forall>j<length (dueSchedules v). \<exists>outcome st'.
           executePayment v (envs (0 + j)) (s_contractorId (dueSchedules v ! j))
             (s_amountUsdc (dueSchedules v ! j)) (s_mode (dueSchedules v ! j))
             (Some (s_id (dueSchedules v ! j))) (sts ! j) = (outcome, st')
           \<and> fst (processLoop v envs 0 (dueSchedules v) 0 (st\<lparr> loading := ''schedule'' \<rparr>)) ! j
               = (s_id (dueSchedules v ! j), outcome)
           \<and> sts ! Suc j
               = (case outcome of
                    Inl e \<Rightarrow> enqueueSnackbar (''Schedule payment failed: '' @ err e) ''error'' st'
                  | Inr u \<Rightarrow> st')"
      unfolding loop by auto
    show ?thesis
      using s t unfolding some [OF ne] loop by (intro exI [of _ sts]) simp
  qed
  have msgs: "snackbar (snd (processDue v envs st))
            = snackbar st
              @ concat (map (\<lambda>attempt. case snd attempt of
                               Inl e \<Rightarrow> [(''Schedule payment failed: '' @ err e, ''error'')]
                             | Inr u \<Rightarrow> [])
                          (fst (processDue v envs st)))
              @ [(''Processed ''
                  @ decimal (length (filter succeeded (fst (processDue v envs st))))
                  @ ''/'' @ decimal (length (dueSchedules v)) @ '' due schedules'',
                  ''success'')]"
    if ne: "dueSchedules v \<noteq> []"
    using processLoop_snackbar
      [of v envs 0 "dueSchedules v" 0 "st\<lparr> loading := ''schedule'' \<rparr>"]
    unfolding some [OF ne] loop by (simp add: enqueueSnackbar_def)
  show ?thesis using due ids none states msgs by blast
qed

theorem processDue_attempts_every_due_schedule_witness:
  "dueSchedules exView \<noteq> []
   \<and> fst (processDue exView exEnvs exState)
       = [(''s-1'', Inr ()), (''s-2'', Inl (Error ''user rejected'')), (''s-3'', Inr ())]
   \<and> snackbar (snd (processDue exView exEnvs exState))
       = [(''Schedule payment failed: user rejected'', ''error''),
          (''Processed 2/3 due schedules'', ''success'')]
   \<and> map k_recipient (payoutCalls (snd (processDue exView exEnvs exState)))
       = [''ALICEADDR'', ''BOBADDR'', ''ALICEADDR'']
   \<and> map (\<lambda>s. (s_id s, s_nextDate s, s_status s))
         (schedules (snd (processDue exView exEnvs exState)))
       = [(''s-1'', ''2025-02-07'', active), (''s-2'', ''2025-02-01'', active),
          (''s-3'', ''2025-03-03'', active), (''s-4'', ''2025-03-31'', active),
          (''s-5'', ''2025-01-01'', completed)]
   \<and> snackbar (snd (processDue exView (\<lambda>i. refreshDown) exState))
       = [(''Schedule payment failed: indexer down'', ''error''),
          (''Schedule payment failed: indexer down'', ''error''),
          (''Schedule payment failed: indexer down'', ''error''),
          (''Processed 0/3 due schedules'', ''success'')]
   \<and> length (payoutCalls (snd (processDue exView (\<lambda>i. refreshDown) exState))) = 3"
proof -
  have due: "dueSchedules exView \<noteq> []" by (simp add: ex_due)
  have n: "length (dueSchedules exView) = 3" by (simp add: ex_due)
  have d: "decimal 0 = ''0''" by code_simp
  have e: "err (Error ''user rejected'') = ''user rejected''"
    "err (Error ''indexer down'') = ''indexer down''"
    by code_simp+
  note report = processDue_attempts_every_due_schedule
    [of exView exEnvs exState, THEN conjunct2, THEN conjunct2, THEN conjunct2, rule_format,
      OF due, THEN conjunct2]
  note down = processDue_attempts_every_due_schedule
    [of exView "\<lambda>i. refreshDown" exState, THEN conjunct2, THEN conjunct2, THEN conjunct2,
      rule_format, OF due, THEN conjunct2]
  have k1: "length (filter succeeded (fst (processDue exView exEnvs exState))) = 2"
    by (simp add: ex_processDue succeeded_def)
  have k2: "length (filter succeeded (fst (processDue exView (\<lambda>i. refreshDown) exState))) = 0"
    by (simp add: ex_processDue_refresh_down(1) succeeded_def)
  have r1: "snackbar (snd (processDue exView exEnvs exState))
       = [(''Schedule payment failed: user rejected'', ''error''),
          (''Processed 2/3 due schedules'', ''success'')]"
    using report [unfolded k1 n ex_decimal] unfolding ex_processDue ex_processDue_state(1)
    by (simp add: e)
  have r2: "snackbar (snd (processDue exView (\<lambda>i. refreshDown) exState))
       = [(''Schedule payment failed: indexer down'', ''error''),
          (''Schedule payment failed: indexer down'', ''error''),
          (''Schedule payment failed: indexer down'', ''error''),
          (''Processed 0/3 due schedules'', ''success'')]"
    using down [unfolded k2 n ex_decimal d] 
    unfolding ex_processDue_refresh_down(1) ex_processDue_state(1)
    by (simp add: e)
  show ?thesis
    using due ex_processDue r1 r2 ex_processDue_state(2,3) ex_processDue_refresh_down(2)
    by simp
qed

section \<open>Properties of the cash-out simulator\<close>

lemma ex_selected:
  "find (\<lambda>c. c_id c = v_selected exView) (v_contractors exView) = Some alice"
  "v_cashMode exView = instant" "v_cashAmount exView = Some 200"
  by (simp_all add: exView_def exState_def alice_def)

text \<open>
  C8: for the selected contractor and the \<^verbatim>\<open>instant\<close> mode, with \<open>amount\<close> the entered
  amount in micro-units (\<^verbatim>\<open>toUsdc\<close> of the entry): when \<open>amount\<close> is positive and does not
  exceed the asset balance of the contractor, the cash-out subtracts \<open>amount\<close> from the asset
  balance, adds the output of the quote in the contractor's preferred currency to the
  local-currency balance (\<open>amount / 1000000\<close>, times rate and spread unless the currency is
  the native one), adds one \<^verbatim>\<open>cashout\<close> record at the head of the activity list and
  notifies the success; nothing else changes. An entry of 200 is 200000000 micro-units,
  whose quote in MXN is 3383: a balance of 500 USDCa (500000000 micro-units) becomes
  300 USDCa, and the local balance grows by 3383. When the amount is not a number, zero or
  negative, and when it exceeds the balance, the cash-out only shows the notification of
  its failure (\<^verbatim>\<open>Invalid USDC amount\<close>, \<^verbatim>\<open>Insufficient USDC balance\<close>): contractors,
  schedules and activity are unchanged.
\<close>

theorem runCashOut_instant:
  assumes "find (\<lambda>c. c_id c = v_selected v) (v_contractors v) = Some sc"
    and "v_cashMode v = instant"
  shows
    "(toUsdc (v_cashAmount v) = Some amount \<and> 0 < amount \<and> amount \<le> c_usdc sc \<longrightarrow>
        runCashOut v amb st =
          enqueueSnackbar ''Instant cash-out completed'' ''success''
            (st\<lparr> contractors :=
                   map (\<lambda>c. if c_id c = c_id sc
                            then c\<lparr> c_usdc := c_usdc c - amount,
                                   c_local := c_local c
                                     + q_output (quoteFor amount (c_preferred sc) (m_now amb)) \<rparr>
                            else c)
                     (contractors st),
                 activity :=
                   \<lparr> a_id = m_makeId amb, a_kind = cashout, a_at = m_at amb,
                     a_contractorId = Some (c_id sc), a_txId = None, a_round = None,
                     a_usdc = Some amount, a_currency = Some (c_preferred sc),
                     a_output = Some (q_output (quoteFor amount (c_preferred sc) (m_now amb))),
                     a_note = ''Instant swap cash-out'' \<rparr> # activity st \<rparr>))
     \<and> (toUsdc (v_cashAmount v) = None
          \<or> (\<exists>a. toUsdc (v_cashAmount v) = Some a \<and> a \<le> 0) \<longrightarrow>
        runCashOut v amb st
          = enqueueSnackbar ''Cash-out failed: Invalid USDC amount'' ''error'' st)
     \<and> (toUsdc (v_cashAmount v) = Some amount \<and> 0 < amount \<and> c_usdc sc < amount \<longrightarrow>
        runCashOut v amb st
          = enqueueSnackbar ''Cash-out failed: Insufficient USDC balance'' ''error'' st)
     \<and> contractors (enqueueSnackbar message variant st) = contractors st
     \<and> schedules (enqueueSnackbar message variant st) = schedules st
     \<and> activity (enqueueSnackbar message variant st) = activity st
     \<and> q_output (quoteFor amount (c_preferred sc) (m_now amb))
         = (if c_preferred sc = USDC then amount / 1000000
            else amount / 1000000 * RATES (c_preferred sc) * 0.995)
     \<and> toUsdc (Some 200) = Some 200000000
     \<and> q_output (quoteFor 200000000 MXN (m_now amb)) = 3383"
proof (intro conjI impI)
  show "runCashOut v amb st =
          enqueueSnackbar ''Instant cash-out completed'' ''success''
            (st\<lparr> contractors :=
                   map (\<lambda>c. if c_id c = c_id sc
                            then c\<lparr> c_usdc := c_usdc c - amount,
                                   c_local := c_local c
                                     + q_output (quoteFor amount (c_preferred sc) (m_now amb)) \<rparr>
                            else c)
                     (contractors st),
                 activity :=
                   \<lparr> a_id = m_makeId amb, a_kind = cashout, a_at = m_at amb,
                     a_contractorId = Some (c_id sc), a_txId = None, a_round = None,
                     a_usdc = Some amount, a_currency = Some (c_preferred sc),
                     a_output = Some (q_output (quoteFor amount (c_preferred sc) (m_now amb))),
                     a_note = ''Instant swap cash-out'' \<rparr> # activity st \<rparr>)"
    if "toUsdc (v_cashAmount v) = Some amount \<and> 0 < amount \<and> amount \<le> c_usdc sc"
  proof -
    have qc: "q_currency (quoteFor amount (c_preferred sc) (m_now amb)) = c_preferred sc"
      by (simp add: quoteFor_def Let_def)
    show ?thesis
      using that assms by (simp add: runCashOut_def Let_def qc)
  qed
  show "runCashOut v amb st
          = enqueueSnackbar ''Cash-out failed: Invalid USDC amount'' ''error'' st"
    if "toUsdc (v_cashAmount v) = None \<or> (\<exists>a. toUsdc (v_cashAmount v) = Some a \<and> a \<le> 0)"
    using that assms by (auto simp: runCashOut_def cashOutFailed_def)
  show "runCashOut v amb st
          = enqueueSnackbar ''Cash-out failed: Insufficient USDC balance'' ''error'' st"
    if "toUsdc (v_cashAmount v) = Some amount \<and> 0 < amount \<and> c_usdc sc < amount"
    using that assms by (auto simp: runCashOut_def cashOutFailed_def)
  show "contractors (enqueueSnackbar message variant st) = contractors st"
    "schedules (enqueueSnackbar message variant st) = schedules st"
    "activity (enqueueSnackbar message variant st) = activity st"
    by (simp_all add: enqueueSnackbar_def)
  show "q_output (quoteFor amount (c_preferred sc) (m_now amb))
         = (if c_preferred sc = USDC then amount / 1000000
            else amount / 1000000 * RATES (c_preferred sc) * 0.995)"
    by (simp add: quoteFor_def SCALE_def Let_def)
  show "toUsdc (Some 200) = Some 200000000" by code_simp
  show "q_output (quoteFor 200000000 MXN (m_now amb)) = 3383"
    by (simp add: quoteFor_def SCALE_def Let_def)
qed

theorem runCashOut_instant_witness:
  "c_usdc alice = 500000000 \<and> c_preferred alice = MXN
   \<and> toUsdc (v_cashAmount exView) = Some 200000000
   \<and> contractors (runCashOut exView exAmbient exState)
       = [alice\<lparr> c_usdc := 300000000, c_local := c_local alice + 3383 \<rparr>, bob]
   \<and> length (activity (runCashOut exView exAmbient exState)) = length (activity exState) + 1
   \<and> a_kind (hd (activity (runCashOut exView exAmbient exState))) = cashout
   \<and> runCashOut (exView\<lparr> v_cashAmount := Some 0 \<rparr>) exAmbient exState
       = enqueueSnackbar ''Cash-out failed: Invalid USDC amount'' ''error'' exState
   \<and> runCashOut (exView\<lparr> v_cashAmount := Some 501 \<rparr>) exAmbient exState
       = enqueueSnackbar ''Cash-out failed: Insufficient USDC balance'' ''error'' exState"
proof -
  have u: "toUsdc (v_cashAmount exView) = Some 200000000"
    "toUsdc (Some 0) = Some 0" "toUsdc (Some 501) = Some 501000000"
    by code_simp+
  have a: "c_usdc alice = 500000000" "c_preferred alice = MXN" "c_id alice = ''c-alice''"
    by (simp_all add: alice_def)
  have cs: "contractors exState = [alice, bob]" by (simp add: exState_def)
  note ok = runCashOut_instant [OF ex_selected(1,2), of 200000000 exAmbient exState,
      THEN conjunct1, rule_format]
  have r: "contractors (runCashOut exView exAmbient exState)
       = [alice\<lparr> c_usdc := 300000000, c_local := c_local alice + 3383 \<rparr>, bob]"
    "activity (runCashOut exView exAmbient exState)
       = \<lparr> a_id = m_makeId exAmbient, a_kind = cashout, a_at = m_at exAmbient,
           a_contractorId = Some (c_id alice), a_txId = None, a_round = None,
           a_usdc = Some 200000000, a_currency = Some (c_preferred alice),
           a_output = Some (q_output (quoteFor 200000000 (c_preferred alice) (m_now exAmbient))),
           a_note = ''Instant swap cash-out'' \<rparr> # activity exState"
    using ok u(1) a(1)
    by (simp_all add: enqueueSnackbar_def cs a(2) quoteFor_def SCALE_def Let_def alice_def bob_def)
  have f: "find (\<lambda>c. c_id c = v_selected (exView\<lparr> v_cashAmount := x \<rparr>))
             (v_contractors (exView\<lparr> v_cashAmount := x \<rparr>)) = Some alice"
    "v_cashMode (exView\<lparr> v_cashAmount := x \<rparr>) = instant" for x
    using ex_selected by simp_all
  have z: "runCashOut (exView\<lparr> v_cashAmount := Some 0 \<rparr>) exAmbient exState
       = enqueueSnackbar ''Cash-out failed: Invalid USDC amount'' ''error'' exState"
    using runCashOut_instant [OF f, of "Some 0" 0 exAmbient exState, THEN conjunct2,
        THEN conjunct1] u(2)
    by simp
  have i: "runCashOut (exView\<lparr> v_cashAmount := Some 501 \<rparr>) exAmbient exState
       = enqueueSnackbar ''Cash-out failed: Insufficient USDC balance'' ''error'' exState"
    using runCashOut_instant [OF f, of "Some 501" 501000000 exAmbient exState, THEN conjunct2,
        THEN conjunct2, THEN conjunct1] u(3) a(1)
    by simp
  show ?thesis using u(1) a r z i by simp
qed

end
